theory Spec2Isabelle
  imports Main "HOL-Library.Signed_Division"
begin

section \<open>The worker permit manager (src/tbb/market.cpp)\<close>

text \<open>
  Conventions of the embedding.
  \<^item> A C++ \<open>int\<close> is an \<open>int\<close>, an \<open>unsigned\<close> or \<open>uintptr_t\<close> a \<open>nat\<close>. The quantities are
    numbers of worker threads, bounded by the hard limit, so the arithmetic on demands stays
    inside 32 bits (signed overflow would be undefined behaviour), and a conversion between
    \<open>int\<close> and \<open>unsigned\<close> is \<open>int\<close> or \<open>nat\<close>, which is exact on the values from 0 to
    \<open>2^31 - 1\<close>. The counters that the code steps with \<open>++\<close> and \<open>--\<close> (reference counts,
    epochs) wrap around as written out in \<open>inc_unsigned\<close>, \<open>dec_unsigned\<close> and
    \<open>inc_uintptr\<close>.
  \<^item> \<open>/\<close> and \<open>%\<close> on \<open>int\<close> truncate towards zero: \<open>sdiv\<close> and \<open>smod\<close>. A division by
    zero is the error \<open>DivisionByZero\<close>.
  \<^item> The fixed arrays \<open>my_arenas[num_priority_levels]\<close> and
    \<open>my_priority_level_demand[num_priority_levels]\<close> are functions from the index.
  \<^item> An intrusive list of clients is the list of the client objects in iteration order;
    every object carries its address \<open>addr\<close>, which is what a pointer comparison compares.
    A function that receives a client by pointer or reference takes the object and returns
    it updated.
  \<^item> \<open>__TBB_ASSERT\<close> is compiled out of release builds: assertions are not branches of the
    model. \<open>market::enforce\<close> always runs and is the error \<open>EnforceFailed\<close>.
  \<^item> A wait for another thread, in a model with one thread, either is over at once or never
    ends: the error \<open>WaitsForever\<close>.
\<close>

datatype error = DivisionByZero | WaitsForever | EnforceFailed

definition inc_unsigned :: "nat \<Rightarrow> nat" where
  "inc_unsigned n = (n + 1) mod 2 ^ 32"

definition dec_unsigned :: "nat \<Rightarrow> nat" where
  "dec_unsigned n = (if n = 0 then 2 ^ 32 - 1 else n - 1)"

definition inc_uintptr :: "nat \<Rightarrow> nat" where
  "inc_uintptr n = (n + 1) mod 2 ^ 64"

subsection \<open>Clients\<close>

text \<open>
  \<open>tbb_permit_manager_client\<close>, with the view of its arena that the accessors
  \<open>priority_level()\<close>, \<open>has_enqueued_tasks()\<close>, \<open>aba_epoch()\<close>, \<open>num_workers_requested()\<close>
  and \<open>references()\<close> give. \<open>arena_allotment\<close> is the allotment published in the arena, the
  value that \<open>exchange_allotment\<close> replaces.
\<close>

record client =
  addr :: nat
  priority_level :: nat
  has_enqueued_tasks :: bool
  aba_epoch :: nat
  num_workers_requested :: int
  references :: nat
  arena_allotment :: nat
  my_ticket :: nat
  m_global_concurrency_mode :: bool
  my_is_top_priority :: bool
  my_num_workers_allotted :: nat
  my_adjust_demand_target_epoch :: int
  my_adjust_demand_current_epoch :: int

definition set_allotment :: "client \<Rightarrow> nat \<Rightarrow> client" where
  "set_allotment a allotment = a\<lparr>my_num_workers_allotted := allotment\<rparr>"

definition set_top_priority :: "client \<Rightarrow> bool \<Rightarrow> client" where
  "set_top_priority a b = a\<lparr>my_is_top_priority := b\<rparr>"

text \<open>
  Modelled from the spec: \<open>arena::exchange_allotment\<close> is declared outside src; the spec says
  that \<open>update_allotment()\<close> "atomically exchanges the arena's published allotment with
  \<open>num_workers_allotted\<close>". The difference \<open>delta\<close> is computed and dropped.
\<close>

definition client_update_allotment :: "client \<Rightarrow> client" where
  "client_update_allotment a = a\<lparr>arena_allotment := my_num_workers_allotted a\<rparr>"

subsection \<open>The thread dispatcher and the market\<close>

text \<open>
  Modelled from the spec: \<open>thread_dispatcher\<close> and its RML server are declared outside src.
  The record holds the fields that market.cpp reads and writes
  (\<open>my_num_workers_hard_limit\<close>, \<open>my_first_unused_worker_idx\<close>, \<open>my_join_workers\<close>) and what
  the calls of market.cpp leave behind: the registered tickets (\<open>insert_ticket\<close>,
  \<open>remove_ticket\<close>), whether \<open>request_close_connection\<close> was called, and the sum of the
  deltas given to \<open>adjust_job_count_estimate\<close>.
\<close>

record thread_dispatcher =
  my_num_workers_hard_limit :: nat
  my_first_unused_worker_idx :: nat
  my_join_workers :: bool
  tickets :: "nat list"
  close_connection_requested :: bool
  job_count_estimate :: int

definition insert_ticket :: "thread_dispatcher \<Rightarrow> nat \<Rightarrow> thread_dispatcher" where
  "insert_ticket td t = td\<lparr>tickets := t # tickets td\<rparr>"

definition remove_ticket :: "thread_dispatcher \<Rightarrow> nat \<Rightarrow> thread_dispatcher" where
  "remove_ticket td t = td\<lparr>tickets := removeAll t (tickets td)\<rparr>"

definition request_close_connection :: "thread_dispatcher \<Rightarrow> thread_dispatcher" where
  "request_close_connection td = td\<lparr>close_connection_requested := True\<rparr>"

definition adjust_job_count_estimate :: "thread_dispatcher \<Rightarrow> int \<Rightarrow> thread_dispatcher" where
  "adjust_job_count_estimate td delta = td\<lparr>job_count_estimate := job_count_estimate td + delta\<rparr>"

text \<open>
  Modelled from the spec: \<open>thread_data\<close> is declared outside src. A recipient of a broadcast
  "updates its own local copy and syncs its local epoch": the record keeps the local epoch
  and the states received.
\<close>

record thread_data =
  td_local_epoch :: nat
  td_received :: "nat list"

definition td_propagate_task_group_state :: "nat \<Rightarrow> thread_data \<Rightarrow> nat \<Rightarrow> thread_data" where
  "td_propagate_task_group_state global_epoch td new_state =
     td\<lparr>td_local_epoch := global_epoch, td_received := new_state # td_received td\<rparr>"

record market =
  my_num_workers_soft_limit :: nat
  my_workers_soft_limit_to_report :: nat
  my_total_demand :: int
  my_priority_level_demand :: "nat \<Rightarrow> int"
  my_num_workers_requested :: int
  my_mandatory_num_requested :: int
  my_arenas :: "nat \<Rightarrow> client list"
  my_arenas_aba_epoch :: nat
  my_ref_count :: nat
  my_public_ref_count :: nat
  my_thread_dispatcher :: thread_dispatcher
  my_workers :: "thread_data option list"
  my_masters :: "thread_data list"

text \<open>
  Modelled from the spec: the constant \<open>num_priority_levels\<close> is declared in a header outside
  src; the spec gives "P (typically 3)".
\<close>

definition num_priority_levels :: nat where
  "num_priority_levels = 3"

subsection \<open>The allotment engine: \<open>market::update_allotment\<close>\<close>

text \<open>The variables of the loops that live across clients and levels.\<close>

record loop_vars =
  assigned :: int
  carry :: int
  max_priority_level :: nat

text \<open>
  The body of the inner loop for one client \<open>a\<close> of \<open>arenas[list_idx]\<close>. A client with no
  demand is skipped by \<open>continue\<close>: nothing of it is written.
\<close>

definition allot_client ::
  "market \<Rightarrow> int \<Rightarrow> nat \<Rightarrow> int \<Rightarrow> client \<Rightarrow> loop_vars \<Rightarrow> error + (client \<times> loop_vars)" where
  "allot_client m max_workers list_idx assigned_per_priority a v =
     (if num_workers_requested a = 0 then Inr (a, v)
      else
        let mpl = (if max_priority_level v = num_priority_levels then list_idx
                   else max_priority_level v)
        in if my_num_workers_soft_limit m = 0 then
             let allotted = (if m_global_concurrency_mode a \<and> assigned v < max_workers
                             then 1 else 0 :: int)
             in Inr (client_update_allotment
                       (set_top_priority (set_allotment a (nat allotted)) (list_idx = mpl)),
                     \<lparr>assigned = assigned v + allotted, carry = carry v,
                      max_priority_level = mpl\<rparr>)
           else if my_priority_level_demand m list_idx = 0 then Inl DivisionByZero
           else
             let tmp = num_workers_requested a * assigned_per_priority + carry v;
                 allotted = tmp sdiv my_priority_level_demand m list_idx
             in Inr (client_update_allotment
                       (set_top_priority (set_allotment a (nat allotted)) (list_idx = mpl)),
                     \<lparr>assigned = assigned v + allotted,
                      carry = tmp smod my_priority_level_demand m list_idx,
                      max_priority_level = mpl\<rparr>))"

text \<open>The inner loop, over the clients of one list in iteration order.\<close>

fun clients_loop ::
  "market \<Rightarrow> int \<Rightarrow> nat \<Rightarrow> int \<Rightarrow> client list \<Rightarrow> loop_vars \<Rightarrow> error + (client list \<times> loop_vars)" where
  "clients_loop m max_workers list_idx app [] v = Inr ([], v)"
| "clients_loop m max_workers list_idx app (a # rest) v =
     (case allot_client m max_workers list_idx app a v of
        Inl e \<Rightarrow> Inl e
      | Inr (a', v') \<Rightarrow>
          (case clients_loop m max_workers list_idx app rest v' of
             Inl e \<Rightarrow> Inl e
           | Inr (rest', v'') \<Rightarrow> Inr (a' # rest', v'')))"

text \<open>The state of the outer loop: the lists, \<open>unassigned_workers\<close> and the loop variables.\<close>

record level_state =
  ls_arenas :: "nat \<Rightarrow> client list"
  unassigned_workers :: int
  ls_vars :: loop_vars

definition level_step :: "market \<Rightarrow> int \<Rightarrow> nat \<Rightarrow> level_state \<Rightarrow> error + level_state" where
  "level_step m max_workers list_idx s =
     (let assigned_per_priority = min (my_priority_level_demand m list_idx) (unassigned_workers s)
      in case clients_loop m max_workers list_idx assigned_per_priority
                (ls_arenas s list_idx) (ls_vars s) of
           Inl e \<Rightarrow> Inl e
         | Inr (cs, v) \<Rightarrow>
             Inr \<lparr>ls_arenas = (ls_arenas s)(list_idx := cs),
                  unassigned_workers = unassigned_workers s - assigned_per_priority,
                  ls_vars = v\<rparr>)"

text \<open>The outer loop, over the list of the indices still to visit.\<close>

fun levels_loop :: "market \<Rightarrow> int \<Rightarrow> nat list \<Rightarrow> level_state \<Rightarrow> error + level_state" where
  "levels_loop m max_workers [] s = Inr s"
| "levels_loop m max_workers (list_idx # idxs) s =
     (case level_step m max_workers list_idx s of
        Inl e \<Rightarrow> Inl e
      | Inr s' \<Rightarrow> levels_loop m max_workers idxs s')"

text \<open>
  \<open>int market::update_allotment(arena_list_type* arenas, int workers_demand, int max_workers)\<close>:
  the result is \<open>assigned\<close> and the lists with the clients updated.
\<close>

definition update_allotment ::
  "market \<Rightarrow> (nat \<Rightarrow> client list) \<Rightarrow> int \<Rightarrow> int \<Rightarrow> error + (int \<times> (nat \<Rightarrow> client list))" where
  "update_allotment m arenas workers_demand max_workers =
     (let max_workers' = min workers_demand max_workers
      in case levels_loop m max_workers' [0..<num_priority_levels]
                \<lparr>ls_arenas = arenas, unassigned_workers = max_workers',
                 ls_vars = \<lparr>assigned = 0, carry = 0,
                            max_priority_level = num_priority_levels\<rparr>\<rparr> of
           Inl e \<Rightarrow> Inl e
         | Inr s \<Rightarrow> Inr (assigned (ls_vars s), ls_arenas s))"


subsection \<open>The demand tracker\<close>

text \<open>
  Modelled from the spec: the one-argument overload \<open>update_allotment(unsigned)\<close> is declared
  in market.h, outside src. The spec's demand tracker "calls the allotment engine with budget
  \<open>workers_requested\<close>", and the engine's budget is "\<open>B = min(total_demand,
  effective_soft_limit)\<close>": the overload runs the engine on \<open>my_arenas\<close> with
  \<open>my_total_demand\<close> as \<open>workers_demand\<close> and the budget as \<open>max_workers\<close>.
\<close>

definition update_allotment_budget :: "market \<Rightarrow> int \<Rightarrow> error + market" where
  "update_allotment_budget m budget =
     (case update_allotment m (my_arenas m) (my_total_demand m) budget of
        Inl e \<Rightarrow> Inl e
      | Inr (n, arenas') \<Rightarrow> Inr (m\<lparr>my_arenas := arenas'\<rparr>))"

text \<open>
  \<open>int market::update_workers_request()\<close>, with \<open>__TBB_ENQUEUE_ENFORCED_CONCURRENCY\<close> on:
  the result is the returned difference and the market.
\<close>

definition update_workers_request :: "market \<Rightarrow> error + (int \<times> market)" where
  "update_workers_request m =
     (let old_request = my_num_workers_requested m;
          m1 = m\<lparr>my_num_workers_requested :=
                   min (my_total_demand m) (int (my_num_workers_soft_limit m))\<rparr>;
          m2 = (if 0 < my_mandatory_num_requested m1
                then m1\<lparr>my_num_workers_requested := 1\<rparr> else m1)
      in case update_allotment_budget m2 (my_num_workers_requested m2) of
           Inl e \<Rightarrow> Inl e
         | Inr m3 \<Rightarrow> Inr (my_num_workers_requested m3 - old_request, m3))"

subsection \<open>Mandatory concurrency\<close>

definition enable_mandatory_concurrency_impl :: "market \<Rightarrow> client \<Rightarrow> market \<times> client" where
  "enable_mandatory_concurrency_impl m a =
     (m\<lparr>my_mandatory_num_requested := my_mandatory_num_requested m + 1\<rparr>,
      a\<lparr>m_global_concurrency_mode := True\<rparr>)"

definition disable_mandatory_concurrency_impl :: "market \<Rightarrow> client \<Rightarrow> market \<times> client" where
  "disable_mandatory_concurrency_impl m a =
     (m\<lparr>my_mandatory_num_requested := my_mandatory_num_requested m - 1\<rparr>,
      a\<lparr>m_global_concurrency_mode := False\<rparr>)"

text \<open>The bodies of the two loops of \<open>set_active_num_workers\<close> over all clients.\<close>

definition disable_if_mode :: "market \<Rightarrow> client \<Rightarrow> market \<times> client" where
  "disable_if_mode m it =
     (if m_global_concurrency_mode it then disable_mandatory_concurrency_impl m it else (m, it))"

definition enable_if_enqueued :: "market \<Rightarrow> client \<Rightarrow> market \<times> client" where
  "enable_if_enqueued m it =
     (if has_enqueued_tasks it then enable_mandatory_concurrency_impl m it else (m, it))"

text \<open>
  \<open>for (level ...) for (it = arenas[level].begin(); ...) body\<close>: the inner loop over one
  list, and the outer loop over the indices still to visit.
\<close>

fun for_each_client ::
  "(market \<Rightarrow> client \<Rightarrow> market \<times> client) \<Rightarrow> market \<Rightarrow> client list \<Rightarrow> market \<times> client list" where
  "for_each_client body m [] = (m, [])"
| "for_each_client body m (it # rest) =
     (case body m it of (m1, it') \<Rightarrow>
        (case for_each_client body m1 rest of (m2, rest') \<Rightarrow> (m2, it' # rest')))"

fun for_each_level ::
  "(market \<Rightarrow> client \<Rightarrow> market \<times> client) \<Rightarrow> market \<Rightarrow> nat list \<Rightarrow> market" where
  "for_each_level body m [] = m"
| "for_each_level body m (level # levels) =
     (case for_each_client body m (my_arenas m level) of (m1, cs) \<Rightarrow>
        for_each_level body (m1\<lparr>my_arenas := (my_arenas m1)(level := cs)\<rparr>) levels)"

subsection \<open>The singleton and its lifetime\<close>

text \<open>
  The global pointer \<open>theMarket\<close> (\<open>None\<close> is \<open>nullptr\<close>), the market objects by address,
  and the global propagation epoch. A method of \<open>market\<close> that reads or writes the globals
  takes the process and the address \<open>this\<close>.
\<close>

record process =
  theMarket :: "nat option"
  heap :: "nat \<Rightarrow> market"
  the_context_state_propagation_epoch :: nat

text \<open>
  \<open>bool market::release(bool is_public, bool blocking_terminate)\<close>. The wait of a blocking
  terminate is for other threads to drop their references.
\<close>

definition release :: "process \<Rightarrow> nat \<Rightarrow> bool \<Rightarrow> bool \<Rightarrow> error + (bool \<times> process)" where
  "release p this is_public blocking_terminate =
     (if theMarket p \<noteq> Some this then Inl EnforceFailed
      else
        let m = heap p this
        in if blocking_terminate \<and> my_public_ref_count m = 1 \<and> 1 < my_ref_count m
           then Inl WaitsForever
           else
             let m1 = (if is_public
                       then m\<lparr>my_public_ref_count := dec_unsigned (my_public_ref_count m)\<rparr>
                       else m);
                 m2 = m1\<lparr>my_ref_count := dec_unsigned (my_ref_count m1)\<rparr>
             in if my_ref_count m2 = 0 then
                  Inr (blocking_terminate,
                       p\<lparr>theMarket := None,
                         heap := (heap p)(this := m2\<lparr>my_thread_dispatcher :=
                           request_close_connection
                             ((my_thread_dispatcher m2)\<lparr>my_join_workers := blocking_terminate\<rparr>)\<rparr>)\<rparr>)
                else Inr (False, p\<lparr>heap := (heap p)(this := m2)\<rparr>))"

text \<open>\<open>void market::set_active_num_workers(unsigned soft_limit)\<close>, a static function.\<close>

definition set_active_num_workers :: "process \<Rightarrow> nat \<Rightarrow> error + process" where
  "set_active_num_workers p soft_limit =
     (case theMarket p of
        None \<Rightarrow> Inr p
      | Some mp \<Rightarrow>
          let m = heap p mp
          in if my_num_workers_soft_limit m = soft_limit then Inr p
             else
               let m1 = m\<lparr>my_ref_count := inc_unsigned (my_ref_count m)\<rparr>;
                   m2 = (if my_num_workers_soft_limit m1 = 0 \<and> 0 < my_mandatory_num_requested m1
                         then for_each_level disable_if_mode m1 [0..<num_priority_levels]
                         else m1);
                   m3 = m2\<lparr>my_num_workers_soft_limit := soft_limit,
                           my_workers_soft_limit_to_report := soft_limit\<rparr>;
                   m4 = (if my_num_workers_soft_limit m3 = 0
                         then for_each_level enable_if_enqueued m3 [0..<num_priority_levels]
                         else m3)
               in case update_workers_request m4 of
                    Inl e \<Rightarrow> Inl e
                  | Inr (delta, m5) \<Rightarrow>
                      let m6 = (if delta \<noteq> 0
                                then m5\<lparr>my_thread_dispatcher :=
                                       adjust_job_count_estimate (my_thread_dispatcher m5) delta\<rparr>
                                else m5)
                      in (case release (p\<lparr>heap := (heap p)(mp := m6)\<rparr>) mp False False of
                            Inl e \<Rightarrow> Inl e
                          | Inr (r, p') \<Rightarrow> Inr p'))"

subsection \<open>State propagation\<close>

text \<open>
  Modelled from the spec: \<open>d1::task_group_context\<close> is declared outside src. The record has
  the field \<open>my_may_have_children\<close> and a state word; \<open>mptr_state\<close>, a pointer to a member,
  is the function that reads the member. \<open>may_have_children\<close> is the sentinel constant.
\<close>

record task_group_context =
  my_may_have_children :: nat
  my_cancellation_requested :: nat

definition may_have_children :: nat where
  "may_have_children = 1"

definition propagate_task_group_state ::
  "process \<Rightarrow> nat \<Rightarrow> (task_group_context \<Rightarrow> nat) \<Rightarrow> task_group_context \<Rightarrow> nat \<Rightarrow> bool \<times> process" where
  "propagate_task_group_state p this mptr_state src new_state =
     (if my_may_have_children src \<noteq> may_have_children then (True, p)
      else if mptr_state src \<noteq> new_state then (False, p)
      else
        let epoch = inc_uintptr (the_context_state_propagation_epoch p);
            m = heap p this;
            num_workers = my_first_unused_worker_idx (my_thread_dispatcher m);
            workers = map (map_option (\<lambda>td. td_propagate_task_group_state epoch td new_state))
                          (take num_workers (my_workers m))
                      @ drop num_workers (my_workers m);
            masters = map (\<lambda>td. td_propagate_task_group_state epoch td new_state) (my_masters m)
        in (True, p\<lparr>the_context_state_propagation_epoch := epoch,
                    heap := (heap p)(this := m\<lparr>my_workers := workers, my_masters := masters\<rparr>)\<rparr>))"

subsection \<open>Registration and removal of clients\<close>

definition insert_arena_into_list :: "market \<Rightarrow> client \<Rightarrow> market" where
  "insert_arena_into_list m a =
     m\<lparr>my_arenas := (my_arenas m)(priority_level a := a # my_arenas m (priority_level a))\<rparr>"

text \<open>Unlinking a node of an intrusive list removes the object at that address.\<close>

definition remove_arena_from_list :: "market \<Rightarrow> client \<Rightarrow> market" where
  "remove_arena_from_list m a =
     m\<lparr>my_arenas := (my_arenas m)(priority_level a :=
          filter (\<lambda>c. addr c \<noteq> addr a) (my_arenas m (priority_level a)))\<rparr>"

text \<open>\<open>create_client\<close>, given the client object that \<open>new\<close> has built.\<close>

definition create_client :: "market \<Rightarrow> client \<Rightarrow> market" where
  "create_client m c =
     (let m1 = insert_arena_into_list m c
      in m1\<lparr>my_thread_dispatcher := insert_ticket (my_thread_dispatcher m1) (my_ticket c)\<rparr>)"

definition detach_arena :: "process \<Rightarrow> nat \<Rightarrow> client \<Rightarrow> error + (process \<times> client)" where
  "detach_arena p this a =
     (if theMarket p \<noteq> Some this then Inl EnforceFailed
      else
        case (if m_global_concurrency_mode a
              then disable_mandatory_concurrency_impl (heap p this) a
              else (heap p this, a)) of
          (m1, a1) \<Rightarrow>
            let m2 = remove_arena_from_list m1 a1;
                m3 = m2\<lparr>my_thread_dispatcher :=
                       remove_ticket (my_thread_dispatcher m2) (my_ticket a1)\<rparr>;
                m4 = (if aba_epoch a1 = my_arenas_aba_epoch m3
                      then m3\<lparr>my_arenas_aba_epoch := inc_uintptr (my_arenas_aba_epoch m3)\<rparr>
                      else m3)
            in Inr (p\<lparr>heap := (heap p)(this := m4)\<rparr>, a1))"



subsection \<open>\<open>market::adjust_demand\<close>\<close>

text \<open>
  The object behind a reference is the one that the lists hold at that address:
  \<open>put_client\<close> writes the object through to the lists, \<open>get_client\<close> reads it back after
  the lists have been updated.
\<close>

definition put_client :: "client \<Rightarrow> (nat \<Rightarrow> client list) \<Rightarrow> (nat \<Rightarrow> client list)" where
  "put_client a arenas = (\<lambda>l. map (\<lambda>c. if addr c = addr a then a else c) (arenas l))"

definition get_client :: "(nat \<Rightarrow> client list) \<Rightarrow> client \<Rightarrow> client" where
  "get_client arenas a =
     (case find (\<lambda>c. addr c = addr a) (concat (map arenas [0..<num_priority_levels])) of
        None \<Rightarrow> a
      | Some c \<Rightarrow> c)"

definition effective_soft_limit :: "market \<Rightarrow> nat" where
  "effective_soft_limit m =
     (if 0 < my_mandatory_num_requested m then 1 else my_num_workers_soft_limit m)"

text \<open>
  \<open>permit_manager_client::update_request\<close> is declared outside src: it is the parameter
  \<open>update_request\<close>, which returns the effective delta and the client updated.
\<close>

definition adjust_demand ::
  "(client \<Rightarrow> int \<Rightarrow> bool \<Rightarrow> int \<times> client) \<Rightarrow> market \<Rightarrow> client \<Rightarrow> int \<Rightarrow> bool
     \<Rightarrow> error + (market \<times> client)" where
  "adjust_demand update_request m a delta mandatory =
     (if delta = 0 then Inr (m, a)
      else
        case update_request a delta mandatory of
          (delta1, a1) \<Rightarrow>
            let m1 = m\<lparr>my_arenas := put_client a1 (my_arenas m)\<rparr>
            in if delta1 = 0 then Inr (m1, a1)
               else
                 let total_demand = my_total_demand m1 + delta1;
                     m2 = m1\<lparr>my_total_demand := total_demand,
                             my_priority_level_demand := (my_priority_level_demand m1)
                               (priority_level a1 :=
                                  my_priority_level_demand m1 (priority_level a1) + delta1)\<rparr>;
                     esl = int (effective_soft_limit m2)
                 in case update_allotment_budget m2 esl of
                      Inl e \<Rightarrow> Inl e
                    | Inr m3 \<Rightarrow>
                        let delta2 =
                              (if 0 < delta1 then
                                 (if my_num_workers_requested m3 + delta1 > esl
                                  then esl - my_num_workers_requested m3 else delta1)
                               else
                                 (if my_num_workers_requested m3 + delta1 < total_demand
                                  then min total_demand esl - my_num_workers_requested m3
                                  else delta1));
                            m4 = m3\<lparr>my_num_workers_requested :=
                                      my_num_workers_requested m3 + delta2\<rparr>;
                            a3 = get_client (my_arenas m4) a1;
                            target_epoch = my_adjust_demand_target_epoch a3;
                            a4 = a3\<lparr>my_adjust_demand_target_epoch := target_epoch + 1\<rparr>
                        in if my_adjust_demand_current_epoch a4 \<noteq> target_epoch
                           then Inl WaitsForever
                           else
                             let a5 = a4\<lparr>my_adjust_demand_current_epoch := target_epoch + 1\<rparr>
                             in Inr (m4\<lparr>my_thread_dispatcher :=
                                          adjust_job_count_estimate (my_thread_dispatcher m4) delta2,
                                        my_arenas := put_client a5 (my_arenas m4)\<rparr>,
                                     a5))"

subsection \<open>Measures and invariants used in the statements\<close>

text \<open>
  The allotment that a client holds when it has positive demand, the sum of these over a
  list, and the sum of the demands of a list.
\<close>

definition granted :: "client \<Rightarrow> int" where
  "granted c = (if 0 < num_workers_requested c then int (my_num_workers_allotted c) else 0)"

definition level_allotted :: "client list \<Rightarrow> int" where
  "level_allotted cs =
     sum_list (map (\<lambda>c. int (my_num_workers_allotted c))
                   (filter (\<lambda>c. 0 < num_workers_requested c) cs))"

definition level_demand :: "client list \<Rightarrow> int" where
  "level_demand cs = sum_list (map num_workers_requested cs)"

text \<open>
  The accounting invariant of the demand tracker (invariant 2 of the spec): the demand of a
  level is the sum of the demands of its clients, none of which is negative.
\<close>

definition demand_consistent :: "market \<Rightarrow> (nat \<Rightarrow> client list) \<Rightarrow> bool" where
  "demand_consistent m arenas \<longleftrightarrow>
     (\<forall>l\<in>set [0..<num_priority_levels].
        my_priority_level_demand m l = level_demand (arenas l)
        \<and> (\<forall>c\<in>set (arenas l). 0 \<le> num_workers_requested c))"

text \<open>
  The per-priority budget in the words of the spec: "\<open>per_priority := min(priority_demand[l],
  unassigned)\<close>; \<open>unassigned -= per_priority\<close>", starting from \<open>unassigned := B\<close>.
\<close>

fun unassigned_before :: "(nat \<Rightarrow> int) \<Rightarrow> int \<Rightarrow> nat \<Rightarrow> int" where
  "unassigned_before pld B 0 = B"
| "unassigned_before pld B (Suc l) =
     unassigned_before pld B l - min (pld l) (unassigned_before pld B l)"

definition per_priority :: "(nat \<Rightarrow> int) \<Rightarrow> int \<Rightarrow> nat \<Rightarrow> int" where
  "per_priority pld B l = min (pld l) (unassigned_before pld B l)"

text \<open>
  The request in the words of the spec: "\<open>workers_requested := min(total_demand, soft)\<close>. If
  \<open>mandatory_num_requested > 0\<close>: set \<open>workers_requested := 1\<close>."
\<close>

definition spec_workers_request :: "market \<Rightarrow> int" where
  "spec_workers_request m =
     (if 0 < my_mandatory_num_requested m then 1
      else min (my_total_demand m) (int (my_num_workers_soft_limit m)))"

text \<open>
  What the engine leaves of a client \<open>c\<close> as \<open>c'\<close>, as far as the top-priority flag goes: a
  client without demand is untouched, any other has the flag \<open>flag\<close>.
\<close>

definition top_priority_marked :: "bool \<Rightarrow> client \<Rightarrow> client \<Rightarrow> bool" where
  "top_priority_marked flag c c' \<longleftrightarrow>
     (if num_workers_requested c = 0 then c' = c else my_is_top_priority c' = flag)"

text \<open>
  The same for the mandatory path: a client without demand is untouched, any other gets 0
  or 1, and 1 only in mandatory mode.
\<close>

definition mandatory_marked :: "client \<Rightarrow> client \<Rightarrow> bool" where
  "mandatory_marked c c' \<longleftrightarrow>
     (if num_workers_requested c = 0 then c' = c
      else num_workers_requested c' = num_workers_requested c
           \<and> my_num_workers_allotted c' \<le> 1
           \<and> (my_num_workers_allotted c' = 1 \<longrightarrow> m_global_concurrency_mode c))"

text \<open>
  The clients that the engine visits (those with demand), the clients of all levels in the
  order of the loops, and the permits that the visited clients of a list hold.
\<close>

definition visited :: "client list \<Rightarrow> client list" where
  "visited cs = filter (\<lambda>c. num_workers_requested c \<noteq> 0) cs"

definition all_clients :: "(nat \<Rightarrow> client list) \<Rightarrow> client list" where
  "all_clients arenas = concat (map arenas [0..<num_priority_levels])"

definition permits :: "client list \<Rightarrow> int" where
  "permits cs = sum_list (map (\<lambda>c. int (my_num_workers_allotted c)) (visited cs))"

definition mandatory_clients :: "client list \<Rightarrow> nat" where
  "mandatory_clients cs = length (filter m_global_concurrency_mode (visited cs))"

text \<open>
  A client but for the three fields that the engine writes, and a client after
  \<open>enable_if_enqueued\<close>.
\<close>

definition unallotted :: "client \<Rightarrow> client" where
  "unallotted c =
     c\<lparr>my_num_workers_allotted := 0, my_is_top_priority := False, arena_allotment := 0\<rparr>"

definition enabled_if_enqueued :: "client \<Rightarrow> client" where
  "enabled_if_enqueued c =
     (if has_enqueued_tasks c then c\<lparr>m_global_concurrency_mode := True\<rparr> else c)"

text \<open>
  What the non-mandatory path leaves of a client \<open>c\<close> as \<open>c'\<close>: a client without demand
  is untouched; any other is the same client but for the three fields that the engine
  writes, its allotment is at most its demand, and the allotment is published in the arena.
\<close>

definition share_marked :: "client \<Rightarrow> client \<Rightarrow> bool" where
  "share_marked c c' \<longleftrightarrow>
     (if num_workers_requested c = 0 then c' = c
      else unallotted c' = unallotted c
           \<and> int (my_num_workers_allotted c') \<le> num_workers_requested c
           \<and> arena_allotment c' = my_num_workers_allotted c')"

text \<open>
  The range in which \<open>int tmp = a.num_workers_requested() * assigned_per_priority + carry\<close>
  cannot overflow for a budget \<open>B\<close> that is an \<open>int\<close>: \<open>assigned_per_priority\<close> is at
  most the budget and \<open>carry\<close> is below the demand of the level.
\<close>

definition tmp_fits_int :: "market \<Rightarrow> (nat \<Rightarrow> client list) \<Rightarrow> int \<Rightarrow> bool" where
  "tmp_fits_int m arenas B \<longleftrightarrow>
     B < 2 ^ 31
     \<and> (\<forall>l\<in>set [0..<num_priority_levels]. \<forall>c\<in>set (arenas l).
          num_workers_requested c * B + my_priority_level_demand m l < 2 ^ 31)"


subsection \<open>States of the scenarios\<close>

definition new_client :: "nat \<Rightarrow> nat \<Rightarrow> int \<Rightarrow> client" where
  "new_client p lvl demand =
     \<lparr>addr = p, priority_level = lvl, has_enqueued_tasks = False, aba_epoch = 0,
      num_workers_requested = demand, references = 0, arena_allotment = 0, my_ticket = p,
      m_global_concurrency_mode = False, my_is_top_priority = False,
      my_num_workers_allotted = 0, my_adjust_demand_target_epoch = 0,
      my_adjust_demand_current_epoch = 0\<rparr>"

definition new_dispatcher :: "nat \<Rightarrow> thread_dispatcher" where
  "new_dispatcher hard =
     \<lparr>my_num_workers_hard_limit = hard, my_first_unused_worker_idx = 0,
      my_join_workers = False, tickets = [], close_connection_requested = False,
      job_count_estimate = 0\<rparr>"

definition new_market :: "nat \<Rightarrow> nat \<Rightarrow> market" where
  "new_market soft hard =
     \<lparr>my_num_workers_soft_limit = soft, my_workers_soft_limit_to_report = soft,
      my_total_demand = 0, my_priority_level_demand = (\<lambda>_. 0),
      my_num_workers_requested = 0, my_mandatory_num_requested = 0,
      my_arenas = (\<lambda>_. []), my_arenas_aba_epoch = 0, my_ref_count = 1,
      my_public_ref_count = 0, my_thread_dispatcher = new_dispatcher hard,
      my_workers = [], my_masters = []\<rparr>"

text \<open>
  Scenario S2 of the spec: soft limit 6, two clients of demand 4 at priority 1.
\<close>

definition market_S2 :: market where
  "market_S2 = (new_market 6 16)
     \<lparr>my_total_demand := 8, my_priority_level_demand := (\<lambda>_. 0)(1 := 8),
      my_arenas := (\<lambda>_. [])(1 := [new_client 2 1 4, new_client 1 1 4])\<rparr>"

text \<open>A process whose singleton pointer holds address 0, where the market \<open>m\<close> lives.\<close>

definition process_of :: "market \<Rightarrow> process" where
  "process_of m = \<lparr>theMarket = Some 0, heap = (\<lambda>_. m), the_context_state_propagation_epoch = 0\<rparr>"

text \<open>
  Scenario S6 of the spec before the last release: one public handle is left, and it is the
  only reference.
\<close>

definition market_S6 :: market where
  "market_S6 = (new_market 7 16)\<lparr>my_ref_count := 1, my_public_ref_count := 1\<rparr>"

text \<open>
  Two clients registered when the stored epoch was 0, at addresses 1 and 2 of priority 2;
  the client at address 1 has been detached since, which moved the stored epoch to 1.
\<close>

definition market_second_detach :: market where
  "market_second_detach = (new_market 4 16)
     \<lparr>my_arenas := (\<lambda>_. [])(2 := [new_client 2 2 0]), my_arenas_aba_epoch := 1,
      my_thread_dispatcher := (new_dispatcher 16)\<lparr>tickets := [2]\<rparr>\<rparr>"

text \<open>
  Scenario S5 of the spec: the caller's snapshot of the client at address 5 has epoch 0; the
  list of priority 2 now holds, at the same address, a client of epoch 1.
\<close>

definition market_S5 :: market where
  "market_S5 = (new_market 4 16)
     \<lparr>my_arenas := (\<lambda>_. [])(2 := [(new_client 5 2 0)\<lparr>aba_epoch := 1\<rparr>]),
      my_arenas_aba_epoch := 1,
      my_thread_dispatcher := (new_dispatcher 16)\<lparr>tickets := [5]\<rparr>\<rparr>"

text \<open>A context that may have children and whose state word is 1, and one that has none.\<close>

definition context_bound :: task_group_context where
  "context_bound = \<lparr>my_may_have_children = may_have_children, my_cancellation_requested = 1\<rparr>"

definition market_two_threads :: market where
  "market_two_threads = (new_market 4 16)
     \<lparr>my_thread_dispatcher := (new_dispatcher 16)\<lparr>my_first_unused_worker_idx := 1\<rparr>,
      my_workers := [Some \<lparr>td_local_epoch = 0, td_received = []\<rparr>, None],
      my_masters := [\<lparr>td_local_epoch = 0, td_received = []\<rparr>]\<rparr>"

text \<open>
  Scenario S4 of the spec after \<open>enable_mandatory\<close>: soft limit 0, one client with enqueued
  tasks and demand 1 in mandatory mode.
\<close>

definition market_S4 :: market where
  "market_S4 = (new_market 0 16)
     \<lparr>my_total_demand := 1, my_priority_level_demand := (\<lambda>_. 0)(1 := 1),
      my_mandatory_num_requested := 1,
      my_arenas := (\<lambda>_. [])(1 := [(new_client 1 1 1)
         \<lparr>has_enqueued_tasks := True, m_global_concurrency_mode := True\<rparr>])\<rparr>"

text \<open>
  An \<open>update_request\<close> that applies the delta to the demand of the arena as it is, and a
  market of soft limit 4 with one registered client that has no demand yet.
\<close>

definition plain_update_request :: "client \<Rightarrow> int \<Rightarrow> bool \<Rightarrow> int \<times> client" where
  "plain_update_request a delta mandatory =
     (delta, a\<lparr>num_workers_requested := num_workers_requested a + delta\<rparr>)"

definition market_one_client :: market where
  "market_one_client = create_client (new_market 4 16) (new_client 1 1 0)"

text \<open>The same market when its client has demand 6: 4 workers are requested and allotted.\<close>

definition market_busy :: market where
  "market_busy = (new_market 4 16)
     \<lparr>my_total_demand := 6, my_priority_level_demand := (\<lambda>_. 0)(1 := 6),
      my_num_workers_requested := 4,
      my_arenas := (\<lambda>_. [])(1 := [(new_client 1 1 6)\<lparr>my_num_workers_allotted := 4\<rparr>]),
      my_thread_dispatcher := (new_dispatcher 16)\<lparr>tickets := [1]\<rparr>\<rparr>"

text \<open>
  Scenario S3 of the spec: soft limit 4, client H of demand 2 at priority 0 and client A of
  demand 3 at priority 1.
\<close>

definition market_S3 :: market where
  "market_S3 = (new_market 4 16)
     \<lparr>my_total_demand := 5, my_priority_level_demand := (\<lambda>_. 0)(0 := 2, 1 := 3),
      my_arenas := (\<lambda>_. [])(0 := [new_client 7 0 2], 1 := [new_client 1 1 3])\<rparr>"

text \<open>
  Priority 0 holds an idle client (address 8) and a client of demand 2 (address 7);
  priority 1 holds a client of demand 1.
\<close>

definition market_idle_on_top :: market where
  "market_idle_on_top = (new_market 4 16)
     \<lparr>my_total_demand := 3, my_priority_level_demand := (\<lambda>_. 0)(0 := 2, 1 := 1),
      my_arenas := (\<lambda>_. [])(0 := [new_client 8 0 0, new_client 7 0 2],
                               1 := [new_client 1 1 1])\<rparr>"

text \<open>
  Soft limit 0. The client at address 1 has enqueued tasks and is in mandatory mode, as
  after \<open>enable_mandatory_concurrency_impl\<close>, and has not requested workers yet; the client
  at address 2 has demand 2.
\<close>

definition market_mandatory_idle :: market where
  "market_mandatory_idle = (new_market 0 16)
     \<lparr>my_total_demand := 2, my_priority_level_demand := (\<lambda>_. 0)(1 := 2),
      my_mandatory_num_requested := 1,
      my_arenas := (\<lambda>_. [])(0 := [(new_client 1 0 0)
                                   \<lparr>has_enqueued_tasks := True,
                                    m_global_concurrency_mode := True\<rparr>],
                               1 := [new_client 2 1 2])\<rparr>"

text \<open>
  Soft limit 4 with two registered clients: the one at address 1 has enqueued tasks and
  demand 1, the one at address 2 has demand 2 and nothing enqueued.
\<close>

definition market_enqueued :: market where
  "market_enqueued = (new_market 4 16)
     \<lparr>my_total_demand := 3, my_priority_level_demand := (\<lambda>_. 0)(1 := 3),
      my_num_workers_requested := 3,
      my_arenas := (\<lambda>_. [])(1 := [(new_client 1 1 1)\<lparr>has_enqueued_tasks := True,
                                                        my_num_workers_allotted := 1\<rparr>,
                                     (new_client 2 1 2)\<lparr>my_num_workers_allotted := 2\<rparr>])\<rparr>"

section \<open>Verification\<close>

subsection \<open>The carry discipline of the allotment engine\<close>

lemma sdiv_nonneg: "0 \<le> k \<Longrightarrow> 0 < l \<Longrightarrow> (k::int) sdiv l = k div l"
  by (simp add: signed_divide_int_def sgn_if)

lemma smod_nonneg: "0 \<le> k \<Longrightarrow> 0 < l \<Longrightarrow> (k::int) smod l = k mod l"
  by (simp add: smod_mod_positive)

lemma share_le:
  fixes r app pld c :: int
  assumes "0 \<le> r" "0 \<le> app" "app \<le> pld" "0 \<le> c" "c < pld"
  shows "(r * app + c) div pld \<le> r"
proof -
  let ?t = "r * app + c"
  have pos: "0 < pld" using assms by linarith
  have "r * app \<le> r * pld" using assms by (simp add: mult_left_mono)
  then have ub: "?t < (r + 1) * pld" using assms by (simp add: algebra_simps)
  have "?t div pld * pld \<le> ?t"
    using pos by (metis div_mult_mod_eq le_add_same_cancel1 pos_mod_sign)
  with ub have "?t div pld * pld < (r + 1) * pld" by linarith
  with pos have "?t div pld < r + 1" by (simp add: mult_less_cancel_right)
  then show ?thesis by simp
qed

lemma allot_client_share:
  assumes soft: "my_num_workers_soft_limit m \<noteq> 0"
    and pld: "pld = my_priority_level_demand m l" "0 < pld"
    and a: "0 \<le> num_workers_requested a"
    and app: "0 \<le> app" "app \<le> pld"
    and c: "0 \<le> carry v" "carry v < pld"
  shows "\<exists>a' v'. allot_client m mw l app a v = Inr (a', v')
           \<and> num_workers_requested a' = num_workers_requested a
           \<and> granted a' * pld + carry v' = num_workers_requested a * app + carry v
           \<and> 0 \<le> carry v' \<and> carry v' < pld
           \<and> granted a' \<le> num_workers_requested a \<and> 0 \<le> granted a'
           \<and> assigned v' = assigned v + granted a'
           \<and> share_marked a a'"
proof (cases "num_workers_requested a = 0")
  case True
  then show ?thesis using c by (simp add: allot_client_def granted_def share_marked_def)
next
  case False
  let ?t = "num_workers_requested a * app + carry v"
  have t0: "0 \<le> ?t" using a app c by simp
  have q: "?t sdiv pld = ?t div pld" and r: "?t smod pld = ?t mod pld"
    using t0 pld by (simp_all add: sdiv_nonneg smod_nonneg)
  have q0: "0 \<le> ?t div pld" using t0 pld by (simp add: pos_imp_zdiv_nonneg_iff)
  have qle: "?t div pld \<le> num_workers_requested a" using share_le [OF a app c] .
  have pos: "0 < num_workers_requested a" using False a by simp
  have dm: "?t div pld * pld + ?t mod pld = ?t" by simp
  show ?thesis
    using False soft pld(2) q r q0 qle pos dm
    unfolding pld(1)
    by (simp add: allot_client_def granted_def Let_def set_allotment_def set_top_priority_def
        client_update_allotment_def share_marked_def unallotted_def)
qed

lemma level_allotted_granted: "level_allotted cs = sum_list (map granted cs)"
  by (induction cs) (simp_all add: level_allotted_def granted_def)


lemma clients_loop_share:
  assumes soft: "my_num_workers_soft_limit m \<noteq> 0"
    and pld: "pld = my_priority_level_demand m l" "0 < pld"
    and cs: "\<forall>c\<in>set cs. 0 \<le> num_workers_requested c"
    and app: "0 \<le> app" "app \<le> pld"
    and c: "0 \<le> carry v" "carry v < pld"
  shows "\<exists>cs' v'. clients_loop m mw l app cs v = Inr (cs', v')
           \<and> map num_workers_requested cs' = map num_workers_requested cs
           \<and> level_allotted cs' * pld + carry v' = level_demand cs * app + carry v
           \<and> 0 \<le> carry v' \<and> carry v' < pld
           \<and> (\<forall>c\<in>set cs'. 0 \<le> granted c \<and> granted c \<le> num_workers_requested c)
           \<and> assigned v' = assigned v + level_allotted cs'
           \<and> list_all2 share_marked cs cs'"
  using cs c
proof (induction cs arbitrary: v)
  case Nil
  then show ?case by (simp add: level_allotted_granted level_demand_def)
next
  case (Cons a rest)
  from Cons.prems have a: "0 \<le> num_workers_requested a" by simp
  from allot_client_share [OF soft pld a app Cons.prems(2,3), of mw]
  obtain a' v1 where s1: "allot_client m mw l app a v = Inr (a', v1)"
    and r1: "num_workers_requested a' = num_workers_requested a"
    and e1: "granted a' * pld + carry v1 = num_workers_requested a * app + carry v"
    and c1: "0 \<le> carry v1" "carry v1 < pld"
    and g1: "granted a' \<le> num_workers_requested a" "0 \<le> granted a'"
    and as1: "assigned v1 = assigned v + granted a'"
    and m1: "share_marked a a'"
    by blast
  from Cons.prems have rest: "\<forall>c\<in>set rest. 0 \<le> num_workers_requested c" by simp
  from Cons.IH [OF rest c1]
  obtain rest' v2 where s2: "clients_loop m mw l app rest v1 = Inr (rest', v2)"
    and r2: "map num_workers_requested rest' = map num_workers_requested rest"
    and e2: "level_allotted rest' * pld + carry v2 = level_demand rest * app + carry v1"
    and c2: "0 \<le> carry v2" "carry v2 < pld"
    and g2: "\<forall>c\<in>set rest'. 0 \<le> granted c \<and> granted c \<le> num_workers_requested c"
    and as2: "assigned v2 = assigned v1 + level_allotted rest'"
    and m2: "list_all2 share_marked rest rest'"
    by blast
  have e: "level_allotted (a' # rest') * pld + carry v2
             = level_demand (a # rest) * app + carry v"
    using e1 e2 by (simp add: level_allotted_granted level_demand_def algebra_simps)
  show ?case
    using s1 s2 r1 r2 e c2 g1 g2 as1 as2 m1 m2
    by (simp add: level_allotted_granted)
qed

lemma clients_loop_no_demand:
  assumes "\<forall>c\<in>set cs. num_workers_requested c = 0"
  shows "clients_loop m mw l app cs v = Inr (cs, v)"
  using assms by (induction cs) (simp_all add: allot_client_def)

lemma share_marked_no_demand:
  assumes "\<forall>c\<in>set cs. num_workers_requested c = 0"
  shows "list_all2 share_marked cs cs"
  using assms by (induction cs) (simp_all add: share_marked_def)

lemma level_allotted_no_demand:
  assumes "\<forall>c\<in>set cs. num_workers_requested c = 0"
  shows "level_allotted cs = 0"
  using assms by (induction cs) (simp_all add: level_allotted_granted granted_def)

lemma no_demand_if_sum_zero:
  assumes "\<forall>c\<in>set cs. 0 \<le> num_workers_requested c" "level_demand cs = 0"
  shows "\<forall>c\<in>set cs. num_workers_requested c = 0"
  using assms
proof (induction cs)
  case Nil
  then show ?case by simp
next
  case (Cons a rest)
  have "0 \<le> sum_list (map num_workers_requested rest)"
    using Cons.prems(1) by (intro sum_list_nonneg) auto
  with Cons.prems have "num_workers_requested a = 0" "level_demand rest = 0"
    by (simp_all add: level_demand_def)
  with Cons show ?case by simp
qed


lemma carry_out_zero:
  fixes G pld c app :: int
  assumes eq: "G * pld + c = pld * app" and c: "0 \<le> c" "c < pld"
  shows "c = 0 \<and> G = app"
proof -
  have c_eq: "c = pld * (app - G)" using eq by (simp add: algebra_simps)
  have pos: "0 < pld" using c by linarith
  have "app - G = 0"
  proof (rule ccontr)
    assume "app - G \<noteq> 0"
    then consider "1 \<le> app - G" | "app - G \<le> - 1" by linarith
    then show False
    proof cases
      case 1
      then have "pld * 1 \<le> pld * (app - G)" using pos by (intro mult_left_mono) simp_all
      with c_eq c show False by simp
    next
      case 2
      then have "pld * (app - G) \<le> pld * (- 1)" using pos by (intro mult_left_mono) simp_all
      with c_eq c pos show False by simp
    qed
  qed
  with c_eq show ?thesis by simp
qed

lemma level_step_share:
  assumes soft: "my_num_workers_soft_limit m \<noteq> 0"
    and dem: "my_priority_level_demand m l = level_demand (ls_arenas s l)"
    and nn: "\<forall>c\<in>set (ls_arenas s l). 0 \<le> num_workers_requested c"
    and c0: "carry (ls_vars s) = 0"
    and u0: "0 \<le> unassigned_workers s"
  shows "\<exists>s'. level_step m mw l s = Inr s'
           \<and> carry (ls_vars s') = 0
           \<and> unassigned_workers s' =
               unassigned_workers s - min (my_priority_level_demand m l) (unassigned_workers s)
           \<and> 0 \<le> unassigned_workers s'
           \<and> (\<forall>k. k \<noteq> l \<longrightarrow> ls_arenas s' k = ls_arenas s k)
           \<and> level_allotted (ls_arenas s' l) =
               min (my_priority_level_demand m l) (unassigned_workers s)
           \<and> (\<forall>c\<in>set (ls_arenas s' l). 0 \<le> granted c \<and> granted c \<le> num_workers_requested c)
           \<and> list_all2 share_marked (ls_arenas s l) (ls_arenas s' l)
           \<and> assigned (ls_vars s') = assigned (ls_vars s) + level_allotted (ls_arenas s' l)"
proof -
  let ?pld = "my_priority_level_demand m l"
  let ?app = "min ?pld (unassigned_workers s)"
  have pld0: "0 \<le> ?pld"
    unfolding dem level_demand_def using nn by (intro sum_list_nonneg) auto
  show ?thesis
  proof (cases "?pld = 0")
    case True
    then have nd: "\<forall>c\<in>set (ls_arenas s l). num_workers_requested c = 0"
      using no_demand_if_sum_zero [OF nn] dem by simp
    have gr: "\<forall>c\<in>set (ls_arenas s l). 0 \<le> granted c \<and> granted c \<le> num_workers_requested c"
      using nd by (simp add: granted_def)
    show ?thesis
      using clients_loop_no_demand [OF nd] level_allotted_no_demand [OF nd]
        share_marked_no_demand [OF nd] True c0 u0 gr
      by (simp add: level_step_def)
  next
    case False
    with pld0 have pos: "0 < ?pld" by simp
    have app: "0 \<le> ?app" "?app \<le> ?pld" using pld0 u0 by simp_all
    have c: "0 \<le> carry (ls_vars s)" "carry (ls_vars s) < ?pld" using c0 pos by simp_all
    from clients_loop_share [OF soft refl pos nn app c, of mw]
    obtain cs' v' where run: "clients_loop m mw l ?app (ls_arenas s l) (ls_vars s) = Inr (cs', v')"
      and eq: "level_allotted cs' * ?pld + carry v' = level_demand (ls_arenas s l) * ?app + carry (ls_vars s)"
      and c': "0 \<le> carry v'" "carry v' < ?pld"
      and gr: "\<forall>c\<in>set cs'. 0 \<le> granted c \<and> granted c \<le> num_workers_requested c"
      and as: "assigned v' = assigned (ls_vars s) + level_allotted cs'"
      and mk: "list_all2 share_marked (ls_arenas s l) cs'"
      by blast
    have "level_allotted cs' * ?pld + carry v' = ?pld * ?app"
      using eq dem c0 by simp
    from carry_out_zero [OF this c'] have z: "carry v' = 0" "level_allotted cs' = ?app" by simp_all
    show ?thesis
      using run z gr u0 mk as
      by (simp add: level_step_def Let_def)
  qed
qed

lemma levels_loop_share:
  assumes soft: "my_num_workers_soft_limit m \<noteq> 0"
    and dem: "\<forall>k. i \<le> k \<and> k < n \<longrightarrow>
                my_priority_level_demand m k = level_demand (ls_arenas s k)
                \<and> (\<forall>c\<in>set (ls_arenas s k). 0 \<le> num_workers_requested c)"
    and c0: "carry (ls_vars s) = 0"
    and u: "unassigned_workers s = unassigned_before (my_priority_level_demand m) B i"
    and u0: "0 \<le> unassigned_workers s"
  shows "\<exists>s'. levels_loop m mw [i..<n] s = Inr s'
           \<and> (\<forall>k. i \<le> k \<and> k < n \<longrightarrow>
                 level_allotted (ls_arenas s' k) = per_priority (my_priority_level_demand m) B k
                 \<and> (\<forall>c\<in>set (ls_arenas s' k). 0 \<le> granted c \<and> granted c \<le> num_workers_requested c)
                 \<and> list_all2 share_marked (ls_arenas s k) (ls_arenas s' k))
           \<and> (\<forall>k. \<not> (i \<le> k \<and> k < n) \<longrightarrow> ls_arenas s' k = ls_arenas s k)
           \<and> assigned (ls_vars s') =
               assigned (ls_vars s)
                 + sum_list (map (\<lambda>k. level_allotted (ls_arenas s' k)) [i..<n])"
  using dem c0 u u0
proof (induction "n - i" arbitrary: i s)
  case 0
  then show ?case by auto
next
  case (Suc d)
  then have lt: "i < n" by simp
  have here: "my_priority_level_demand m i = level_demand (ls_arenas s i)"
    "\<forall>c\<in>set (ls_arenas s i). 0 \<le> num_workers_requested c"
    using Suc.prems(1) lt by auto
  from level_step_share [OF soft here Suc.prems(2) Suc.prems(4), of mw]
  obtain s1 where step: "level_step m mw i s = Inr s1"
    and c1: "carry (ls_vars s1) = 0"
    and u1: "unassigned_workers s1 =
               unassigned_workers s - min (my_priority_level_demand m i) (unassigned_workers s)"
    and u1nn: "0 \<le> unassigned_workers s1"
    and frame1: "\<forall>k. k \<noteq> i \<longrightarrow> ls_arenas s1 k = ls_arenas s k"
    and sum1: "level_allotted (ls_arenas s1 i) =
               min (my_priority_level_demand m i) (unassigned_workers s)"
    and gr1: "\<forall>c\<in>set (ls_arenas s1 i). 0 \<le> granted c \<and> granted c \<le> num_workers_requested c"
    and mk1: "list_all2 share_marked (ls_arenas s i) (ls_arenas s1 i)"
    and as1: "assigned (ls_vars s1) = assigned (ls_vars s) + level_allotted (ls_arenas s1 i)"
    by blast
  have d: "d = n - Suc i" using Suc.hyps(2) by simp
  have dem1: "\<forall>k. Suc i \<le> k \<and> k < n \<longrightarrow>
                my_priority_level_demand m k = level_demand (ls_arenas s1 k)
                \<and> (\<forall>c\<in>set (ls_arenas s1 k). 0 \<le> num_workers_requested c)"
  proof (intro allI impI)
    fix k assume k: "Suc i \<le> k \<and> k < n"
    then have "i \<le> k \<and> k < n" "k \<noteq> i" by simp_all
    with Suc.prems(1) frame1 show "my_priority_level_demand m k = level_demand (ls_arenas s1 k)
                \<and> (\<forall>c\<in>set (ls_arenas s1 k). 0 \<le> num_workers_requested c)" by simp
  qed
  have u1': "unassigned_workers s1 = unassigned_before (my_priority_level_demand m) B (Suc i)"
    using u1 Suc.prems(3) by simp
  from Suc.hyps(1) [OF d dem1 c1 u1' u1nn]
  obtain s' where run: "levels_loop m mw [Suc i..<n] s1 = Inr s'"
    and res: "\<forall>k. Suc i \<le> k \<and> k < n \<longrightarrow>
                 level_allotted (ls_arenas s' k) = per_priority (my_priority_level_demand m) B k
                 \<and> (\<forall>c\<in>set (ls_arenas s' k). 0 \<le> granted c \<and> granted c \<le> num_workers_requested c)
                 \<and> list_all2 share_marked (ls_arenas s1 k) (ls_arenas s' k)"
    and frame: "\<forall>k. \<not> (Suc i \<le> k \<and> k < n) \<longrightarrow> ls_arenas s' k = ls_arenas s1 k"
    and as: "assigned (ls_vars s') =
               assigned (ls_vars s1)
                 + sum_list (map (\<lambda>k. level_allotted (ls_arenas s' k)) [Suc i..<n])"
    by blast
  have whole: "levels_loop m mw [i..<n] s = Inr s'"
    using lt step run by (simp add: upt_conv_Cons)
  have at_i: "ls_arenas s' i = ls_arenas s1 i" using frame by simp
  have levels: "\<forall>k. i \<le> k \<and> k < n \<longrightarrow>
                 level_allotted (ls_arenas s' k) = per_priority (my_priority_level_demand m) B k
                 \<and> (\<forall>c\<in>set (ls_arenas s' k). 0 \<le> granted c \<and> granted c \<le> num_workers_requested c)
                 \<and> list_all2 share_marked (ls_arenas s k) (ls_arenas s' k)"
  proof (intro allI impI)
    fix k assume k: "i \<le> k \<and> k < n"
    show "level_allotted (ls_arenas s' k) = per_priority (my_priority_level_demand m) B k
                 \<and> (\<forall>c\<in>set (ls_arenas s' k). 0 \<le> granted c \<and> granted c \<le> num_workers_requested c)
                 \<and> list_all2 share_marked (ls_arenas s k) (ls_arenas s' k)"
    proof (cases "k = i")
      case True
      then show ?thesis
        using at_i sum1 gr1 mk1 Suc.prems(3) by (simp add: per_priority_def)
    next
      case False
      with k have "Suc i \<le> k \<and> k < n" by simp
      with res have "level_allotted (ls_arenas s' k) = per_priority (my_priority_level_demand m) B k
                 \<and> (\<forall>c\<in>set (ls_arenas s' k). 0 \<le> granted c \<and> granted c \<le> num_workers_requested c)
                 \<and> list_all2 share_marked (ls_arenas s1 k) (ls_arenas s' k)"
        by blast
      with frame1 False show ?thesis by simp
    qed
  qed
  have framed: "\<forall>k. \<not> (i \<le> k \<and> k < n) \<longrightarrow> ls_arenas s' k = ls_arenas s k"
  proof (intro allI impI)
    fix k assume k: "\<not> (i \<le> k \<and> k < n)"
    with lt have "\<not> (Suc i \<le> k \<and> k < n)" "k \<noteq> i" by auto
    with frame frame1 show "ls_arenas s' k = ls_arenas s k" by simp
  qed
  have total: "assigned (ls_vars s') =
               assigned (ls_vars s)
                 + sum_list (map (\<lambda>k. level_allotted (ls_arenas s' k)) [i..<n])"
    using as as1 at_i lt by (simp add: upt_conv_Cons)
  from whole levels framed total show ?case by blast
qed

text \<open>
  Claim C1. In the non-mandatory path of the allotment engine (soft limit not zero), with
  the demand accounting consistent, a positive \<open>workers_demand\<close>, a budget that is not
  negative, and demands small enough for \<open>int tmp\<close> not to overflow, the engine returns
  the lists of the same clients, changed only in the three fields that it writes and not
  at all where a client has no demand. For every priority level the allotments of that
  level's clients with positive demand sum to exactly the per-priority budget of the level,
  \<open>min(priority_demand[l], unassigned)\<close>, and each such allotment is at most the client's
  demand and is published in its arena. The returned total is the sum of these sums. The
  witness is scenario S2: the two clients of demand 4 at one level get 3 and 3 of the
  budget 6.
\<close>

theorem update_allotment_level_sum:
  assumes soft: "my_num_workers_soft_limit m \<noteq> 0"
    and inv: "demand_consistent m arenas"
    and wd: "0 < workers_demand" and mw: "0 \<le> max_workers"
    and fits: "tmp_fits_int m arenas (min workers_demand max_workers)"
  shows "\<exists>assigned' arenas'.
           update_allotment m arenas workers_demand max_workers = Inr (assigned', arenas')
           \<and> (\<forall>l<num_priority_levels.
                 list_all2 share_marked (arenas l) (arenas' l)
                 \<and> level_allotted (arenas' l) =
                   per_priority (my_priority_level_demand m) (min workers_demand max_workers) l
                 \<and> (\<forall>c\<in>set (arenas' l). 0 < num_workers_requested c \<longrightarrow>
                        int (my_num_workers_allotted c) \<le> num_workers_requested c))
           \<and> (\<forall>l. num_priority_levels \<le> l \<longrightarrow> arenas' l = arenas l)
           \<and> assigned' =
               sum_list (map (\<lambda>l. level_allotted (arenas' l)) [0..<num_priority_levels])"
proof -
  let ?B = "min workers_demand max_workers"
  let ?s = "\<lparr>ls_arenas = arenas, unassigned_workers = ?B,
             ls_vars = \<lparr>assigned = 0, carry = 0, max_priority_level = num_priority_levels\<rparr>\<rparr>"
  have dem: "\<forall>k. 0 \<le> k \<and> k < num_priority_levels \<longrightarrow>
                my_priority_level_demand m k = level_demand (ls_arenas ?s k)
                \<and> (\<forall>c\<in>set (ls_arenas ?s k). 0 \<le> num_workers_requested c)"
    using inv by (simp add: demand_consistent_def)
  have c0: "carry (ls_vars ?s) = 0" by simp
  have u: "unassigned_workers ?s = unassigned_before (my_priority_level_demand m) ?B 0" by simp
  have u0: "0 \<le> unassigned_workers ?s" using wd mw by simp
  from levels_loop_share [OF soft dem c0 u u0, of ?B]
  obtain s' where run: "levels_loop m ?B [0..<num_priority_levels] ?s = Inr s'"
    and res: "\<forall>k. 0 \<le> k \<and> k < num_priority_levels \<longrightarrow>
                 level_allotted (ls_arenas s' k) = per_priority (my_priority_level_demand m) ?B k
                 \<and> (\<forall>c\<in>set (ls_arenas s' k). 0 \<le> granted c \<and> granted c \<le> num_workers_requested c)
                 \<and> list_all2 share_marked (ls_arenas ?s k) (ls_arenas s' k)"
    and frame: "\<forall>k. \<not> (0 \<le> k \<and> k < num_priority_levels) \<longrightarrow> ls_arenas s' k = ls_arenas ?s k"
    and total: "assigned (ls_vars s') =
               assigned (ls_vars ?s)
                 + sum_list (map (\<lambda>k. level_allotted (ls_arenas s' k)) [0..<num_priority_levels])"
    by blast
  have r: "update_allotment m arenas workers_demand max_workers
          = Inr (assigned (ls_vars s'), ls_arenas s')"
    using run by (simp add: update_allotment_def Let_def)
  have levels: "\<forall>l<num_priority_levels.
                 list_all2 share_marked (arenas l) (ls_arenas s' l)
                 \<and> level_allotted (ls_arenas s' l) = per_priority (my_priority_level_demand m) ?B l
                 \<and> (\<forall>c\<in>set (ls_arenas s' l). 0 < num_workers_requested c \<longrightarrow>
                        int (my_num_workers_allotted c) \<le> num_workers_requested c)"
  proof (intro allI impI)
    fix l assume "l < num_priority_levels"
    with res have a: "level_allotted (ls_arenas s' l) = per_priority (my_priority_level_demand m) ?B l"
      and b: "\<forall>c\<in>set (ls_arenas s' l). granted c \<le> num_workers_requested c"
      and mk: "list_all2 share_marked (arenas l) (ls_arenas s' l)"
      by simp_all
    from b have "\<forall>c\<in>set (ls_arenas s' l). 0 < num_workers_requested c \<longrightarrow>
                        int (my_num_workers_allotted c) \<le> num_workers_requested c"
      by (auto simp: granted_def split: if_splits)
    with a mk show "list_all2 share_marked (arenas l) (ls_arenas s' l)
                 \<and> level_allotted (ls_arenas s' l) = per_priority (my_priority_level_demand m) ?B l
                 \<and> (\<forall>c\<in>set (ls_arenas s' l). 0 < num_workers_requested c \<longrightarrow>
                        int (my_num_workers_allotted c) \<le> num_workers_requested c)" by simp
  qed
  have outside: "\<forall>l. num_priority_levels \<le> l \<longrightarrow> ls_arenas s' l = arenas l"
    using frame by simp
  have tot: "assigned (ls_vars s') =
               sum_list (map (\<lambda>l. level_allotted (ls_arenas s' l)) [0..<num_priority_levels])"
    using total by simp
  from r levels outside tot show ?thesis by blast
qed

theorem update_allotment_level_sum_witness:
  "my_num_workers_soft_limit market_S2 \<noteq> 0
   \<and> demand_consistent market_S2 (my_arenas market_S2)
   \<and> tmp_fits_int market_S2 (my_arenas market_S2) (min 8 6)
   \<and> (\<exists>assigned' arenas'.
         update_allotment market_S2 (my_arenas market_S2) 8 6 = Inr (assigned', arenas')
         \<and> assigned' = 6
         \<and> level_allotted (arenas' 1) = 6
         \<and> map addr (arenas' 1) = [2, 1]
         \<and> map num_workers_requested (arenas' 1) = [4, 4]
         \<and> map my_num_workers_allotted (arenas' 1) = [3, 3]
         \<and> map arena_allotment (arenas' 1) = [3, 3]
         \<and> arenas' 0 = [] \<and> arenas' 2 = []
         \<and> (\<forall>c\<in>set (arenas' 1). int (my_num_workers_allotted c) \<le> 4))"
proof -
  have h1: "my_num_workers_soft_limit market_S2 \<noteq> 0"
    by (simp add: market_S2_def new_market_def)
  have h2: "demand_consistent market_S2 (my_arenas market_S2)"
    by code_simp
  have h3: "tmp_fits_int market_S2 (my_arenas market_S2) (min 8 6)"
    by code_simp
  have budget: "per_priority (my_priority_level_demand market_S2) (min 8 6) 1 = 6"
    by code_simp
  have run: "case update_allotment market_S2 (my_arenas market_S2) 8 6 of
               Inl e \<Rightarrow> False
             | Inr (n, ar) \<Rightarrow> n = 6 \<and> map my_num_workers_allotted (ar 1) = [3, 3]"
    by code_simp
  have a0: "my_arenas market_S2 0 = []" "my_arenas market_S2 2 = []"
    and a1: "my_arenas market_S2 1 = [new_client 2 1 4, new_client 1 1 4]"
    by (simp_all add: market_S2_def)
  from update_allotment_level_sum [OF h1 h2 _ _ h3]
  obtain n ar where r: "update_allotment market_S2 (my_arenas market_S2) 8 6 = Inr (n, ar)"
    and s: "\<forall>l<num_priority_levels.
              list_all2 share_marked (my_arenas market_S2 l) (ar l)
              \<and> level_allotted (ar l) =
                per_priority (my_priority_level_demand market_S2) (min 8 6) l
              \<and> (\<forall>c\<in>set (ar l). 0 < num_workers_requested c \<longrightarrow>
                     int (my_num_workers_allotted c) \<le> num_workers_requested c)"
    by (auto simp del: min.absorb1 min.absorb2 min.absorb3 min.absorb4)
  have lv: "(0::nat) < num_priority_levels" "(1::nat) < num_priority_levels"
    "(2::nat) < num_priority_levels"
    by (simp_all add: num_priority_levels_def)
  from s lv have mk: "list_all2 share_marked (my_arenas market_S2 0) (ar 0)"
    "list_all2 share_marked (my_arenas market_S2 1) (ar 1)"
    "list_all2 share_marked (my_arenas market_S2 2) (ar 2)"
    and sum: "level_allotted (ar 1) =
                per_priority (my_priority_level_demand market_S2) (min 8 6) 1"
    by blast+
  from mk(1) mk(3) have empty: "ar 0 = []" "ar 2 = []" by (simp_all add: a0)
  from mk(2) obtain x y where xy: "ar 1 = [x, y]"
    and ux: "unallotted x = unallotted (new_client 2 1 4)"
    and uy: "unallotted y = unallotted (new_client 1 1 4)"
    and px: "arena_allotment x = my_num_workers_allotted x"
    and py: "arena_allotment y = my_num_workers_allotted y"
    unfolding a1 by (auto simp: list_all2_Cons1 share_marked_def new_client_def)
  have ids: "addr x = addr (unallotted x)" "addr y = addr (unallotted y)"
    "num_workers_requested x = num_workers_requested (unallotted x)"
    "num_workers_requested y = num_workers_requested (unallotted y)"
    by (simp_all add: unallotted_def)
  have tie: "map addr (ar 1) = [2, 1]" "map num_workers_requested (ar 1) = [4, 4]"
    unfolding xy using ids unfolding ux uy by (simp_all add: unallotted_def new_client_def)
  from run r have vals: "n = 6" "map my_num_workers_allotted (ar 1) = [3, 3]" by simp_all
  from vals(2) px py have pub: "map arena_allotment (ar 1) = [3, 3]"
    unfolding xy by simp
  have "\<forall>c\<in>set (ar 1).
          my_num_workers_allotted c \<in> set (map my_num_workers_allotted (ar 1))"
    by simp
  with vals have "\<forall>c\<in>set (ar 1). my_num_workers_allotted c = 3" by simp
  then have le: "\<forall>c\<in>set (ar 1). int (my_num_workers_allotted c) \<le> 4" by simp
  from sum budget have six: "level_allotted (ar 1) = 6" by simp
  from h1 h2 h3 r vals six tie pub empty le show ?thesis by simp
qed

subsection \<open>The lifetime of the singleton\<close>

text \<open>
  Claim C7. With the singleton pointing at this market, \<open>release\<close> either waits (a blocking
  terminate while one public reference is left and other references exist), or returns
  after decrementing \<open>public_ref_count\<close> only when \<open>is_public\<close> and then \<open>ref_count\<close>.
  It clears the singleton pointer and requests the close of the dispatcher connection
  exactly when \<open>ref_count\<close> has reached zero; it returns true iff it tore the market down
  and \<open>blocking_terminate\<close> was requested; otherwise the singleton stays in place, the
  dispatcher is untouched and the result is false.
\<close>

theorem release_ref_counts:
  assumes "theMarket p = Some this"
  shows "if blocking_terminate \<and> my_public_ref_count (heap p this) = 1
            \<and> 1 < my_ref_count (heap p this)
         then release p this is_public blocking_terminate = Inl WaitsForever
         else \<exists>ret p'.
           release p this is_public blocking_terminate = Inr (ret, p')
           \<and> my_public_ref_count (heap p' this) =
               (if is_public then dec_unsigned (my_public_ref_count (heap p this))
                else my_public_ref_count (heap p this))
           \<and> my_ref_count (heap p' this) = dec_unsigned (my_ref_count (heap p this))
           \<and> theMarket p' = (if my_ref_count (heap p' this) = 0 then None else Some this)
           \<and> my_thread_dispatcher (heap p' this) =
               (if my_ref_count (heap p' this) = 0
                then request_close_connection
                       ((my_thread_dispatcher (heap p this))\<lparr>my_join_workers := blocking_terminate\<rparr>)
                else my_thread_dispatcher (heap p this))
           \<and> (ret \<longleftrightarrow> my_ref_count (heap p' this) = 0 \<and> blocking_terminate)"
  using assms by (auto simp: release_def Let_def)

theorem release_ref_counts_witness:
  "theMarket (process_of market_S6) = Some 0
   \<and> (\<exists>p'. release (process_of market_S6) 0 True True = Inr (True, p')
         \<and> my_public_ref_count (heap p' 0) = 0 \<and> my_ref_count (heap p' 0) = 0
         \<and> theMarket p' = None
         \<and> close_connection_requested (my_thread_dispatcher (heap p' 0))
         \<and> my_join_workers (my_thread_dispatcher (heap p' 0)))"
proof -
  have h: "theMarket (process_of market_S6) = Some 0" by (simp add: process_of_def)
  have c: "my_public_ref_count (heap (process_of market_S6) 0) = 1"
    "my_ref_count (heap (process_of market_S6) 0) = 1"
    by (simp_all add: process_of_def market_S6_def)
  from release_ref_counts [OF h, of True True] c h
  show ?thesis
    by (auto simp: dec_unsigned_def request_close_connection_def)
qed

subsection \<open>State propagation\<close>

text \<open>
  Claim C8. \<open>propagate_task_group_state\<close> returns false if and only if the source context
  carries the may-have-children sentinel and its state word, read again under the
  propagation mutex, is not \<open>new_state\<close>. Whenever it returns false nothing is broadcast and
  the propagation epoch is unchanged; when the context does not carry the sentinel it
  returns true, again with nothing broadcast. Otherwise the epoch is advanced.
\<close>

theorem propagate_task_group_state_result:
  assumes "propagate_task_group_state p this mptr_state src new_state = (b, p')"
  shows "(\<not> b \<longleftrightarrow> my_may_have_children src = may_have_children \<and> mptr_state src \<noteq> new_state)
         \<and> (\<not> b \<longrightarrow> p' = p)
         \<and> (my_may_have_children src \<noteq> may_have_children \<longrightarrow> b \<and> p' = p)
         \<and> (my_may_have_children src = may_have_children \<and> mptr_state src = new_state \<longrightarrow>
              the_context_state_propagation_epoch p' =
                inc_uintptr (the_context_state_propagation_epoch p))"
  using assms by (auto simp: propagate_task_group_state_def Let_def split: if_splits)

theorem propagate_task_group_state_result_witness:
  "propagate_task_group_state (process_of market_two_threads) 0
       my_cancellation_requested context_bound 2
     = (False, process_of market_two_threads)
   \<and> (\<exists>p'. propagate_task_group_state (process_of market_two_threads) 0
              my_cancellation_requested context_bound 1 = (True, p')
           \<and> the_context_state_propagation_epoch p' = 1
           \<and> my_masters (heap p' 0) = [\<lparr>td_local_epoch = 1, td_received = [1]\<rparr>]
           \<and> my_workers (heap p' 0) = [Some \<lparr>td_local_epoch = 1, td_received = [1]\<rparr>, None])"
proof -
  have lost: "propagate_task_group_state (process_of market_two_threads) 0
       my_cancellation_requested context_bound 2 = (False, process_of market_two_threads)"
    by (simp add: propagate_task_group_state_def context_bound_def)
  have won: "propagate_task_group_state (process_of market_two_threads) 0
       my_cancellation_requested context_bound 1
     = (True, snd (propagate_task_group_state (process_of market_two_threads) 0
                     my_cancellation_requested context_bound 1))"
    by (simp add: propagate_task_group_state_def context_bound_def Let_def)
  have sent: "my_may_have_children context_bound = may_have_children"
    "my_cancellation_requested context_bound = 1"
    by (simp_all add: context_bound_def)
  from propagate_task_group_state_result [OF won] sent
  have ep: "the_context_state_propagation_epoch
              (snd (propagate_task_group_state (process_of market_two_threads) 0
                     my_cancellation_requested context_bound 1)) = 1"
    by (simp add: inc_uintptr_def process_of_def)
  have bc: "my_masters (heap (snd (propagate_task_group_state (process_of market_two_threads) 0
                     my_cancellation_requested context_bound 1)) 0)
              = [\<lparr>td_local_epoch = 1, td_received = [1]\<rparr>]"
    "my_workers (heap (snd (propagate_task_group_state (process_of market_two_threads) 0
                     my_cancellation_requested context_bound 1)) 0)
              = [Some \<lparr>td_local_epoch = 1, td_received = [1]\<rparr>, None]"
    by (simp_all add: propagate_task_group_state_def context_bound_def Let_def process_of_def
        market_two_threads_def new_market_def new_dispatcher_def inc_uintptr_def
        td_propagate_task_group_state_def)
  from lost won ep bc show ?thesis by metis
qed

subsection \<open>Detaching a client\<close>

lemma detach_arena_effect:
  assumes "theMarket p = Some this"
  shows "\<exists>p' a'. detach_arena p this a = Inr (p', a')
           \<and> theMarket p' = theMarket p
           \<and> (\<forall>q. q \<noteq> this \<longrightarrow> heap p' q = heap p q)
           \<and> my_arenas (heap p' this) =
               (my_arenas (heap p this))(priority_level a :=
                  filter (\<lambda>c. addr c \<noteq> addr a) (my_arenas (heap p this) (priority_level a)))
           \<and> tickets (my_thread_dispatcher (heap p' this)) =
               removeAll (my_ticket a) (tickets (my_thread_dispatcher (heap p this)))
           \<and> my_mandatory_num_requested (heap p' this) =
               my_mandatory_num_requested (heap p this)
                 - (if m_global_concurrency_mode a then 1 else 0)
           \<and> my_arenas_aba_epoch (heap p' this) =
               (if aba_epoch a = my_arenas_aba_epoch (heap p this)
                then inc_uintptr (my_arenas_aba_epoch (heap p this))
                else my_arenas_aba_epoch (heap p this))
           \<and> a' = a\<lparr>m_global_concurrency_mode := False\<rparr>"
  using assms
  by (auto simp: detach_arena_def disable_mandatory_concurrency_impl_def
      remove_arena_from_list_def remove_ticket_def Let_def)


text \<open>
  Claim C9, as amended. \<open>detach_arena\<close> increments \<open>arenas_aba_epoch\<close> exactly when the
  epoch of the detached client equals the stored epoch, and leaves it unchanged otherwise.
  So for a client whose epoch is at most the stored one, as it is from the creation of its
  arena on, the stored epoch is strictly larger than the client's epoch after the detach,
  as long as the counter does not wrap around.
\<close>

theorem detach_arena_epoch:
  assumes "theMarket p = Some this"
  shows "\<exists>p' a'. detach_arena p this a = Inr (p', a')
           \<and> my_arenas_aba_epoch (heap p' this) =
               (if aba_epoch a = my_arenas_aba_epoch (heap p this)
                then inc_uintptr (my_arenas_aba_epoch (heap p this))
                else my_arenas_aba_epoch (heap p this))
           \<and> (aba_epoch a \<le> my_arenas_aba_epoch (heap p this)
                \<and> my_arenas_aba_epoch (heap p this) + 1 < 2 ^ 64 \<longrightarrow>
              aba_epoch a < my_arenas_aba_epoch (heap p' this))"
proof -
  from detach_arena_effect [OF assms, of a]
  obtain p' a' where r: "detach_arena p this a = Inr (p', a')"
    and e: "my_arenas_aba_epoch (heap p' this) =
               (if aba_epoch a = my_arenas_aba_epoch (heap p this)
                then inc_uintptr (my_arenas_aba_epoch (heap p this))
                else my_arenas_aba_epoch (heap p this))"
    by blast
  have "aba_epoch a \<le> my_arenas_aba_epoch (heap p this)
          \<and> my_arenas_aba_epoch (heap p this) + 1 < 2 ^ 64 \<longrightarrow>
        aba_epoch a < my_arenas_aba_epoch (heap p' this)"
    using e by (auto simp: inc_uintptr_def)
  with r e show ?thesis by blast
qed

theorem detach_arena_epoch_witness:
  "theMarket (process_of market_S5) = Some 0
   \<and> aba_epoch ((new_client 5 2 0)\<lparr>aba_epoch := 1\<rparr>)
         \<le> my_arenas_aba_epoch (heap (process_of market_S5) 0)
   \<and> my_arenas_aba_epoch (heap (process_of market_S5) 0) + 1 < 2 ^ 64
   \<and> (\<exists>p' a'. detach_arena (process_of market_S5) 0 ((new_client 5 2 0)\<lparr>aba_epoch := 1\<rparr>)
                  = Inr (p', a')
         \<and> my_arenas_aba_epoch (heap p' 0) = 2)"
proof -
  have h: "theMarket (process_of market_S5) = Some 0" by (simp add: process_of_def)
  have e: "my_arenas_aba_epoch (heap (process_of market_S5) 0) = 1"
    by (simp add: process_of_def market_S5_def)
  have a: "aba_epoch ((new_client 5 2 0)\<lparr>aba_epoch := 1\<rparr>) = 1" by simp
  from detach_arena_epoch [OF h, of "(new_client 5 2 0)\<lparr>aba_epoch := 1\<rparr>"] h e a
  show ?thesis by (auto simp: inc_uintptr_def)
qed

theorem detach_arena_epoch_counterexample:
  "my_arenas_aba_epoch (heap (process_of market_second_detach) 0) = 1
   \<and> my_arenas (heap (process_of market_second_detach) 0) 2 = [new_client 2 2 0]
   \<and> (case detach_arena (process_of market_second_detach) 0 (new_client 2 2 0) of
         Inl e \<Rightarrow> False
       | Inr (p', a') \<Rightarrow>
           my_arenas (heap p' 0) 2 = [] \<and> my_arenas_aba_epoch (heap p' 0) = 1)"
  by (simp add: process_of_def market_second_detach_def detach_arena_def new_client_def
      remove_arena_from_list_def Let_def)

subsection \<open>\<open>try_destroy_arena\<close>\<close>




subsection \<open>The demand tracker\<close>

lemma update_allotment_budget_frame:
  assumes "update_allotment_budget m budget = Inr m'"
  shows "m' = m\<lparr>my_arenas := my_arenas m'\<rparr>"
    and "\<exists>n. update_allotment m (my_arenas m) (my_total_demand m) budget = Inr (n, my_arenas m')"
  using assms by (auto simp: update_allotment_budget_def split: sum.splits prod.splits)

lemma update_allotment_market_irrelevant:
  assumes "my_num_workers_soft_limit m' = my_num_workers_soft_limit m"
    and "my_priority_level_demand m' = my_priority_level_demand m"
  shows "update_allotment m' arenas wd mw = update_allotment m arenas wd mw"
proof -
  have c: "allot_client m' mw' l app a v = allot_client m mw' l app a v" for mw' l app a v
    using assms by (simp add: allot_client_def)
  have cs: "clients_loop m' mw' l app xs v = clients_loop m mw' l app xs v" for mw' l app xs v
    by (induction xs arbitrary: v) (simp_all add: c split: sum.splits)
  have st: "level_step m' mw' l s = level_step m mw' l s" for mw' l s
    using assms by (simp add: level_step_def cs)
  have ls: "levels_loop m' mw' idxs s = levels_loop m mw' idxs s" for mw' idxs s
    by (induction idxs arbitrary: s) (simp_all add: st split: sum.splits)
  show ?thesis by (simp add: update_allotment_def ls)
qed

lemma update_workers_request_spec:
  "update_workers_request m =
     (case update_allotment m (my_arenas m) (my_total_demand m) (spec_workers_request m) of
        Inl e \<Rightarrow> Inl e
      | Inr (n, arenas') \<Rightarrow>
          Inr (spec_workers_request m - my_num_workers_requested m,
               m\<lparr>my_num_workers_requested := spec_workers_request m, my_arenas := arenas'\<rparr>))"
proof -
  let ?r = "spec_workers_request m"
  let ?m2 = "m\<lparr>my_num_workers_requested := ?r\<rparr>"
  have irr: "update_allotment ?m2 (my_arenas m) (my_total_demand m) ?r
               = update_allotment m (my_arenas m) (my_total_demand m) ?r"
    by (rule update_allotment_market_irrelevant) simp_all
  have "update_workers_request m =
          (case update_allotment_budget ?m2 ?r of
             Inl e \<Rightarrow> Inl e
           | Inr m3 \<Rightarrow> Inr (my_num_workers_requested m3 - my_num_workers_requested m, m3))"
    by (simp add: update_workers_request_def spec_workers_request_def Let_def)
  also have "\<dots> = (case update_allotment m (my_arenas m) (my_total_demand m) ?r of
        Inl e \<Rightarrow> Inl e
      | Inr (n, arenas') \<Rightarrow>
          Inr (?r - my_num_workers_requested m,
               m\<lparr>my_num_workers_requested := ?r, my_arenas := arenas'\<rparr>))"
    using irr by (simp add: update_allotment_budget_def split: sum.splits prod.splits)
  finally show ?thesis .
qed

text \<open>
  Claim C3. \<open>update_workers_request\<close> sets \<open>workers_requested\<close> to
  \<open>min(total_demand, workers_soft_limit)\<close>, or to 1 when \<open>mandatory_num_requested > 0\<close>,
  runs the allotment engine with that budget, and returns the difference against the
  previous \<open>workers_requested\<close>. Nothing else of the market changes, and the function
  fails only where the engine does.
\<close>

theorem update_workers_request_result:
  "update_workers_request m =
     (case update_allotment m (my_arenas m) (my_total_demand m) (spec_workers_request m) of
        Inl e \<Rightarrow> Inl e
      | Inr (n, arenas') \<Rightarrow>
          Inr (spec_workers_request m - my_num_workers_requested m,
               m\<lparr>my_num_workers_requested := spec_workers_request m, my_arenas := arenas'\<rparr>))"
  by (rule update_workers_request_spec)

theorem update_workers_request_result_witness:
  "(\<exists>m'. update_workers_request market_S2 = Inr (6, m')
         \<and> my_num_workers_requested m' = 6
         \<and> map my_num_workers_allotted (my_arenas m' 1) = [3, 3])
   \<and> (\<exists>m'. update_workers_request market_S4 = Inr (1, m')
         \<and> my_num_workers_requested m' = 1
         \<and> map my_num_workers_allotted (my_arenas m' 1) = [1])"
proof -
  have e2: "case update_allotment market_S2 (my_arenas market_S2) (my_total_demand market_S2) 6 of
              Inl e \<Rightarrow> False
            | Inr (n, ar) \<Rightarrow> map my_num_workers_allotted (ar 1) = [3, 3]"
    by code_simp
  have e4: "case update_allotment market_S4 (my_arenas market_S4) (my_total_demand market_S4) 1 of
              Inl e \<Rightarrow> False
            | Inr (n, ar) \<Rightarrow> map my_num_workers_allotted (ar 1) = [1]"
    by code_simp
  have r2: "spec_workers_request market_S2 = 6" "my_num_workers_requested market_S2 = 0"
    by (simp_all add: spec_workers_request_def market_S2_def new_market_def)
  have r4: "spec_workers_request market_S4 = 1" "my_num_workers_requested market_S4 = 0"
    by (simp_all add: spec_workers_request_def market_S4_def new_market_def)
  from e2 r2 update_workers_request_result [of market_S2]
  have w2: "\<exists>m'. update_workers_request market_S2 = Inr (6, m')
         \<and> my_num_workers_requested m' = 6
         \<and> map my_num_workers_allotted (my_arenas m' 1) = [3, 3]"
    by (auto split: sum.splits)
  from e4 r4 update_workers_request_result [of market_S4]
  have w4: "\<exists>m'. update_workers_request market_S4 = Inr (1, m')
         \<and> my_num_workers_requested m' = 1
         \<and> map my_num_workers_allotted (my_arenas m' 1) = [1]"
    by (auto split: sum.splits)
  from w2 w4 show ?thesis by blast
qed

subsection \<open>The clipping of \<open>adjust_demand\<close>\<close>

lemma adjust_demand_scalars:
  assumes run: "adjust_demand ur m a delta mandatory = Inr (m', a')"
    and delta: "delta \<noteq> 0"
    and ur: "fst (ur a delta mandatory) = d"
    and d: "d \<noteq> 0"
  shows "my_total_demand m' = my_total_demand m + d"
    and "my_num_workers_soft_limit m' = my_num_workers_soft_limit m"
    and "my_mandatory_num_requested m' = my_mandatory_num_requested m"
    and "my_num_workers_hard_limit (my_thread_dispatcher m')
           = my_num_workers_hard_limit (my_thread_dispatcher m)"
    and "my_num_workers_requested m' =
           my_num_workers_requested m +
             (if 0 < d then
                (if my_num_workers_requested m + d > int (effective_soft_limit m)
                 then int (effective_soft_limit m) - my_num_workers_requested m else d)
              else
                (if my_num_workers_requested m + d < my_total_demand m + d
                 then min (my_total_demand m + d) (int (effective_soft_limit m))
                        - my_num_workers_requested m
                 else d))"
proof -
  obtain a1 where u: "ur a delta mandatory = (d, a1)"
    using ur by (cases "ur a delta mandatory") simp
  let ?m2 = "m\<lparr>my_arenas := put_client a1 (my_arenas m),
               my_total_demand := my_total_demand m + d,
               my_priority_level_demand := (my_priority_level_demand m)
                 (priority_level a1 := my_priority_level_demand m (priority_level a1) + d)\<rparr>"
  have esl: "effective_soft_limit ?m2 = effective_soft_limit m"
    by (simp add: effective_soft_limit_def)
  from run delta d u obtain m3 where b: "update_allotment_budget ?m2 (int (effective_soft_limit m)) = Inr m3"
    by (auto simp: adjust_demand_def Let_def esl split: sum.splits if_splits)
  from update_allotment_budget_frame(1) [OF b] have fr: "m3 = ?m2\<lparr>my_arenas := my_arenas m3\<rparr>" .
  have s3: "my_total_demand m3 = my_total_demand m + d"
    "my_num_workers_soft_limit m3 = my_num_workers_soft_limit m"
    "my_mandatory_num_requested m3 = my_mandatory_num_requested m"
    "my_thread_dispatcher m3 = my_thread_dispatcher m"
    "my_num_workers_requested m3 = my_num_workers_requested m"
    by (subst fr, simp)+
  from run delta d u b s3
  show "my_total_demand m' = my_total_demand m + d"
    and "my_num_workers_soft_limit m' = my_num_workers_soft_limit m"
    and "my_mandatory_num_requested m' = my_mandatory_num_requested m"
    and "my_num_workers_hard_limit (my_thread_dispatcher m')
           = my_num_workers_hard_limit (my_thread_dispatcher m)"
    and "my_num_workers_requested m' =
           my_num_workers_requested m +
             (if 0 < d then
                (if my_num_workers_requested m + d > int (effective_soft_limit m)
                 then int (effective_soft_limit m) - my_num_workers_requested m else d)
              else
                (if my_num_workers_requested m + d < my_total_demand m + d
                 then min (my_total_demand m + d) (int (effective_soft_limit m))
                        - my_num_workers_requested m
                 else d))"
    by (auto simp: adjust_demand_def Let_def esl adjust_job_count_estimate_def split: if_splits)
qed


text \<open>
  Claim C2. For every \<open>adjust_demand\<close> call that changes demand and returns: the effective
  soft limit is the one of the entry; a positive delta leaves \<open>workers_requested\<close> at most
  the effective soft limit; a negative delta leaves it at least \<open>min(total_demand,
  effective_soft_limit)\<close>; and if \<open>0 \<le> workers_requested \<le> effective_soft_limit \<le>
  workers_hard_limit\<close> held on entry and the new total demand is not negative, it holds on
  exit.
\<close>

theorem adjust_demand_bounds:
  assumes run: "adjust_demand update_request m a delta mandatory = Inr (m', a')"
    and delta: "delta \<noteq> 0"
    and ur: "fst (update_request a delta mandatory) = d"
    and d: "d \<noteq> 0"
  shows "effective_soft_limit m' = effective_soft_limit m
         \<and> my_total_demand m' = my_total_demand m + d
         \<and> (0 < d \<longrightarrow> my_num_workers_requested m' \<le> int (effective_soft_limit m'))
         \<and> (d < 0 \<longrightarrow>
              min (my_total_demand m') (int (effective_soft_limit m'))
                \<le> my_num_workers_requested m')
         \<and> (0 \<le> my_num_workers_requested m
              \<and> my_num_workers_requested m \<le> int (effective_soft_limit m)
              \<and> effective_soft_limit m \<le> my_num_workers_hard_limit (my_thread_dispatcher m)
              \<and> 0 \<le> my_total_demand m' \<longrightarrow>
              0 \<le> my_num_workers_requested m'
              \<and> my_num_workers_requested m' \<le> int (effective_soft_limit m')
              \<and> effective_soft_limit m' \<le> my_num_workers_hard_limit (my_thread_dispatcher m'))"
proof -
  note s = adjust_demand_scalars [OF run delta ur d]
  have esl: "effective_soft_limit m' = effective_soft_limit m"
    using s(2,3) by (simp add: effective_soft_limit_def)
  have pos: "0 < d \<longrightarrow> my_num_workers_requested m' \<le> int (effective_soft_limit m')"
    unfolding esl s(5) by simp
  have neg: "d < 0 \<longrightarrow> min (my_total_demand m') (int (effective_soft_limit m'))
                \<le> my_num_workers_requested m'"
    unfolding esl s(5) s(1) by (auto simp: min_def)
  have inv: "0 \<le> my_num_workers_requested m
              \<and> my_num_workers_requested m \<le> int (effective_soft_limit m)
              \<and> effective_soft_limit m \<le> my_num_workers_hard_limit (my_thread_dispatcher m)
              \<and> 0 \<le> my_total_demand m' \<longrightarrow>
              0 \<le> my_num_workers_requested m'
              \<and> my_num_workers_requested m' \<le> int (effective_soft_limit m')
              \<and> effective_soft_limit m' \<le> my_num_workers_hard_limit (my_thread_dispatcher m')"
    unfolding esl s(5) s(1) s(4) using d by (auto simp: min_def)
  from esl s(1) pos neg inv show ?thesis by blast
qed

theorem adjust_demand_bounds_witness:
  "(\<exists>m' a'. adjust_demand plain_update_request market_one_client (new_client 1 1 0) 6 False
               = Inr (m', a')
          \<and> my_num_workers_requested market_one_client = 0
          \<and> effective_soft_limit market_one_client = 4
          \<and> my_total_demand m' = 6
          \<and> my_num_workers_requested m' = 4)
   \<and> (\<exists>m' a'. adjust_demand plain_update_request market_busy
                 ((new_client 1 1 6)\<lparr>my_num_workers_allotted := 4\<rparr>) (- 2) False
               = Inr (m', a')
          \<and> my_num_workers_requested market_busy = 4
          \<and> effective_soft_limit market_busy = 4
          \<and> my_total_demand m' = 4
          \<and> my_num_workers_requested m' = 4)"
proof -
  have e1: "case adjust_demand plain_update_request market_one_client (new_client 1 1 0) 6 False of
              Inl e \<Rightarrow> False
            | Inr (m', a') \<Rightarrow> my_num_workers_requested m' = 4"
    by code_simp
  have e2: "case adjust_demand plain_update_request market_busy
                 ((new_client 1 1 6)\<lparr>my_num_workers_allotted := 4\<rparr>) (- 2) False of
              Inl e \<Rightarrow> False
            | Inr (m', a') \<Rightarrow> my_num_workers_requested m' = 4"
    by code_simp
  from e1 obtain m1 a1 where
    r1: "adjust_demand plain_update_request market_one_client (new_client 1 1 0) 6 False
           = Inr (m1, a1)" and v1: "my_num_workers_requested m1 = 4"
    by (auto split: sum.splits)
  from e2 obtain m2 a2 where
    r2: "adjust_demand plain_update_request market_busy
           ((new_client 1 1 6)\<lparr>my_num_workers_allotted := 4\<rparr>) (- 2) False = Inr (m2, a2)"
    and v2: "my_num_workers_requested m2 = 4"
    by (auto split: sum.splits)
  have u1: "fst (plain_update_request (new_client 1 1 0) 6 False) = 6"
    and u2: "fst (plain_update_request ((new_client 1 1 6)\<lparr>my_num_workers_allotted := 4\<rparr>)
                    (- 2) False) = - 2"
    by (simp_all add: plain_update_request_def)
  have i1: "my_num_workers_requested market_one_client = 0"
    "effective_soft_limit market_one_client = 4" "my_total_demand market_one_client = 0"
    by (simp_all add: market_one_client_def create_client_def insert_arena_into_list_def
        new_market_def effective_soft_limit_def Let_def)
  have i2: "my_num_workers_requested market_busy = 4"
    "effective_soft_limit market_busy = 4" "my_total_demand market_busy = 6"
    by (simp_all add: market_busy_def new_market_def effective_soft_limit_def)
  from adjust_demand_bounds [OF r1 _ u1] i1
  have t1: "my_total_demand m1 = 6" by simp
  from adjust_demand_bounds [OF r2 _ u2] i2
  have t2: "my_total_demand m2 = 4" by simp
  from r1 v1 i1 t1 r2 v2 i2 t2 show ?thesis by simp
qed

subsection \<open>The top-priority flag\<close>

lemma allot_client_flag:
  assumes "allot_client m mw l app a v = Inr (a', v')"
  shows "top_priority_marked
           (max_priority_level v = num_priority_levels \<or> max_priority_level v = l) a a'"
    and "max_priority_level v' =
           (if num_workers_requested a \<noteq> 0 \<and> max_priority_level v = num_priority_levels
            then l else max_priority_level v)"
  using assms
  by (auto simp: allot_client_def top_priority_marked_def Let_def set_top_priority_def
      set_allotment_def client_update_allotment_def split: if_splits)

lemma clients_loop_flag:
  assumes "clients_loop m mw l app cs v = Inr (cs', v')" and "l < num_priority_levels"
  shows "list_all2 (top_priority_marked
           (max_priority_level v = num_priority_levels \<or> max_priority_level v = l)) cs cs'
         \<and> max_priority_level v' =
           (if (\<exists>x\<in>set cs. num_workers_requested x \<noteq> 0)
               \<and> max_priority_level v = num_priority_levels
            then l else max_priority_level v)"
  using assms(1)
proof (induction cs arbitrary: v cs')
  case Nil
  then show ?case by simp
next
  case (Cons a rest)
  from Cons.prems obtain a' v1 rest' where
    s1: "allot_client m mw l app a v = Inr (a', v1)"
    and s2: "clients_loop m mw l app rest v1 = Inr (rest', v')"
    and cs': "cs' = a' # rest'"
    by (auto split: sum.splits)
  note f = allot_client_flag [OF s1]
  note ih = Cons.IH [OF s2]
  have same_top: "(max_priority_level v1 = num_priority_levels \<or> max_priority_level v1 = l)
                  = (max_priority_level v = num_priority_levels \<or> max_priority_level v = l)"
    using f(2) assms(2) by auto
  show ?case
    using f ih assms(2) unfolding cs' same_top by auto
qed


lemma level_step_flag:
  assumes "level_step m mw l s = Inr s'" and "l < num_priority_levels"
  shows "list_all2 (top_priority_marked
           (max_priority_level (ls_vars s) = num_priority_levels
            \<or> max_priority_level (ls_vars s) = l)) (ls_arenas s l) (ls_arenas s' l)"
    and "\<forall>k. k \<noteq> l \<longrightarrow> ls_arenas s' k = ls_arenas s k"
    and "max_priority_level (ls_vars s') =
           (if (\<exists>x\<in>set (ls_arenas s l). num_workers_requested x \<noteq> 0)
               \<and> max_priority_level (ls_vars s) = num_priority_levels
            then l else max_priority_level (ls_vars s))"
proof -
  from assms(1) obtain cs v where
    run: "clients_loop m mw l (min (my_priority_level_demand m l) (unassigned_workers s))
            (ls_arenas s l) (ls_vars s) = Inr (cs, v)"
    and s': "s' = \<lparr>ls_arenas = (ls_arenas s)(l := cs),
                  unassigned_workers = unassigned_workers s
                    - min (my_priority_level_demand m l) (unassigned_workers s),
                  ls_vars = v\<rparr>"
    by (auto simp: level_step_def Let_def split: sum.splits)
  note f = clients_loop_flag [OF run assms(2)]
  show "list_all2 (top_priority_marked
           (max_priority_level (ls_vars s) = num_priority_levels
            \<or> max_priority_level (ls_vars s) = l)) (ls_arenas s l) (ls_arenas s' l)"
    using f by (simp add: s')
  show "\<forall>k. k \<noteq> l \<longrightarrow> ls_arenas s' k = ls_arenas s k"
    by (simp add: s')
  show "max_priority_level (ls_vars s') =
           (if (\<exists>x\<in>set (ls_arenas s l). num_workers_requested x \<noteq> 0)
               \<and> max_priority_level (ls_vars s) = num_priority_levels
            then l else max_priority_level (ls_vars s))"
    using f by (simp add: s')
qed

lemma levels_loop_flag:
  assumes run: "levels_loop m mw [i..<n] s = Inr s'"
    and n: "n \<le> num_priority_levels"
    and J: "(max_priority_level (ls_vars s) = num_priority_levels
              \<and> (\<forall>k<i. \<forall>x\<in>set (A k). num_workers_requested x = 0))
            \<or> (max_priority_level (ls_vars s) < i
              \<and> \<not> (\<forall>k<i. \<forall>x\<in>set (A k). num_workers_requested x = 0))"
    and fr: "\<forall>k. i \<le> k \<longrightarrow> ls_arenas s k = A k"
  shows "(\<forall>k. i \<le> k \<and> k < n \<longrightarrow>
            list_all2 (top_priority_marked (\<forall>j<k. \<forall>x\<in>set (A j). num_workers_requested x = 0))
              (A k) (ls_arenas s' k))
         \<and> (\<forall>k. \<not> (i \<le> k \<and> k < n) \<longrightarrow> ls_arenas s' k = ls_arenas s k)"
  using run J fr
proof (induction "n - i" arbitrary: i s)
  case 0
  then show ?case by auto
next
  case (Suc d)
  then have lt: "i < n" by simp
  with n have iP: "i < num_priority_levels" by simp
  from Suc.prems(1) lt obtain s1 where
    step: "level_step m mw i s = Inr s1" and rest: "levels_loop m mw [Suc i..<n] s1 = Inr s'"
    by (auto simp: upt_conv_Cons split: sum.splits)
  note f = level_step_flag [OF step iP]
  have Ai: "ls_arenas s i = A i" using Suc.prems(3) by simp
  let ?none = "\<lambda>k. \<forall>j<k. \<forall>x\<in>set (A j). num_workers_requested x = 0"
  have flag_i: "(max_priority_level (ls_vars s) = num_priority_levels
                 \<or> max_priority_level (ls_vars s) = i) = ?none i"
    using Suc.prems(2) iP by auto
  have marked_i: "list_all2 (top_priority_marked (?none i)) (A i) (ls_arenas s1 i)"
    using f(1) unfolding flag_i Ai .
  have J1: "(max_priority_level (ls_vars s1) = num_priority_levels \<and> ?none (Suc i))
            \<or> (max_priority_level (ls_vars s1) < Suc i \<and> \<not> ?none (Suc i))"
    using f(3) Suc.prems(2) iP unfolding Ai by (auto simp: less_Suc_eq)
  have fr1: "\<forall>k. Suc i \<le> k \<longrightarrow> ls_arenas s1 k = A k"
    using f(2) Suc.prems(3) by simp
  have d: "d = n - Suc i" using Suc.hyps(2) by simp
  from Suc.hyps(1) [OF d rest J1 fr1]
  have res: "\<forall>k. Suc i \<le> k \<and> k < n \<longrightarrow>
               list_all2 (top_priority_marked (?none k)) (A k) (ls_arenas s' k)"
    and frame: "\<forall>k. \<not> (Suc i \<le> k \<and> k < n) \<longrightarrow> ls_arenas s' k = ls_arenas s1 k"
    by blast+
  have at_i: "ls_arenas s' i = ls_arenas s1 i" using frame by simp
  have "\<forall>k. i \<le> k \<and> k < n \<longrightarrow>
          list_all2 (top_priority_marked (?none k)) (A k) (ls_arenas s' k)"
  proof (intro allI impI)
    fix k assume k: "i \<le> k \<and> k < n"
    show "list_all2 (top_priority_marked (?none k)) (A k) (ls_arenas s' k)"
    proof (cases "k = i")
      case True
      then show ?thesis using marked_i at_i by simp
    next
      case False
      with k have "Suc i \<le> k \<and> k < n" by simp
      with res show ?thesis by blast
    qed
  qed
  moreover have "\<forall>k. \<not> (i \<le> k \<and> k < n) \<longrightarrow> ls_arenas s' k = ls_arenas s k"
  proof (intro allI impI)
    fix k assume k: "\<not> (i \<le> k \<and> k < n)"
    with lt have "\<not> (Suc i \<le> k \<and> k < n)" "k \<noteq> i" by auto
    with frame f(2) show "ls_arenas s' k = ls_arenas s k" by simp
  qed
  ultimately show ?case by blast
qed

text \<open>
  Claim C5, as amended. After the allotment engine has run, in either path, a client with
  non-zero demand has \<open>is_top_priority\<close> true if and only if no level of higher priority
  holds a client with non-zero demand, that is, if and only if it sits in the first level
  that has demand. A client without demand is skipped: it keeps the flag it had.
\<close>

theorem update_allotment_top_priority:
  assumes "update_allotment m arenas workers_demand max_workers = Inr (n, arenas')"
  shows "\<forall>l<num_priority_levels.
           list_all2 (top_priority_marked
                        (\<forall>k<l. \<forall>x\<in>set (arenas k). num_workers_requested x = 0))
             (arenas l) (arenas' l)"
proof -
  let ?s = "\<lparr>ls_arenas = arenas, unassigned_workers = min workers_demand max_workers,
             ls_vars = \<lparr>assigned = 0, carry = 0, max_priority_level = num_priority_levels\<rparr>\<rparr>"
  from assms obtain s' where
    run: "levels_loop m (min workers_demand max_workers) [0..<num_priority_levels] ?s = Inr s'"
    and ar: "arenas' = ls_arenas s'"
    by (auto simp: update_allotment_def Let_def split: sum.splits)
  have J: "(max_priority_level (ls_vars ?s) = num_priority_levels
              \<and> (\<forall>k<0. \<forall>x\<in>set (arenas k). num_workers_requested x = 0))
            \<or> (max_priority_level (ls_vars ?s) < 0
              \<and> \<not> (\<forall>k<0. \<forall>x\<in>set (arenas k). num_workers_requested x = 0))"
    by simp
  have fr: "\<forall>k. 0 \<le> k \<longrightarrow> ls_arenas ?s k = arenas k" by simp
  from levels_loop_flag [OF run _ J fr] show ?thesis
    unfolding ar by simp
qed

theorem update_allotment_top_priority_witness:
  "\<exists>n arenas'.
      update_allotment market_S3 (my_arenas market_S3) 5 4 = Inr (n, arenas')
      \<and> map my_is_top_priority (arenas' 0) = [True]
      \<and> map my_is_top_priority (arenas' 1) = [False]
      \<and> map my_num_workers_allotted (arenas' 0) = [2]
      \<and> map my_num_workers_allotted (arenas' 1) = [2]"
proof -
  have e: "case update_allotment market_S3 (my_arenas market_S3) 5 4 of
             Inl e \<Rightarrow> False
           | Inr (n, ar) \<Rightarrow> map my_num_workers_allotted (ar 0) = [2]
                            \<and> map my_num_workers_allotted (ar 1) = [2]"
    by code_simp
  then obtain n ar where r: "update_allotment market_S3 (my_arenas market_S3) 5 4 = Inr (n, ar)"
    and al: "map my_num_workers_allotted (ar 0) = [2]" "map my_num_workers_allotted (ar 1) = [2]"
    by (auto split: sum.splits)
  have lv: "(0::nat) < num_priority_levels" "(1::nat) < num_priority_levels"
    by (simp_all add: num_priority_levels_def)
  have a0: "my_arenas market_S3 0 = [new_client 7 0 2]"
    and a1: "my_arenas market_S3 1 = [new_client 1 1 3]"
    by (simp_all add: market_S3_def)
  from update_allotment_top_priority [OF r] lv
  have m0: "list_all2 (top_priority_marked
               (\<forall>k<0. \<forall>x\<in>set (my_arenas market_S3 k). num_workers_requested x = 0))
             (my_arenas market_S3 0) (ar 0)"
    and m1: "list_all2 (top_priority_marked
               (\<forall>k<1. \<forall>x\<in>set (my_arenas market_S3 k). num_workers_requested x = 0))
             (my_arenas market_S3 1) (ar 1)"
    by blast+
  from m0 have f0: "map my_is_top_priority (ar 0) = [True]"
    unfolding a0 by (auto simp: list_all2_Cons1 top_priority_marked_def new_client_def)
  from m1 have f1: "map my_is_top_priority (ar 1) = [False]"
    unfolding a1 by (auto simp: list_all2_Cons1 top_priority_marked_def new_client_def a0)
  from r f0 f1 al show ?thesis by simp
qed

theorem update_allotment_top_priority_counterexample:
  "map num_workers_requested (my_arenas market_idle_on_top 0) = [0, 2]
   \<and> (case update_allotment market_idle_on_top (my_arenas market_idle_on_top) 3 4 of
         Inl e \<Rightarrow> False
       | Inr (n, ar) \<Rightarrow>
           map my_is_top_priority (ar 0) = [False, True]
           \<and> map my_is_top_priority (ar 1) = [False])"
  by code_simp

subsection \<open>The mandatory path of the allotment engine\<close>

lemma permits_append [simp]: "permits (xs @ ys) = permits xs + permits ys"
  by (simp add: permits_def visited_def)

lemma mandatory_clients_append [simp]:
  "mandatory_clients (xs @ ys) = mandatory_clients xs + mandatory_clients ys"
  by (simp add: mandatory_clients_def visited_def)

lemma saturate_twice:
  fixes a B :: int and j k :: nat
  shows "max (max a (min B (a + int j))) (min B (max a (min B (a + int j)) + int k))
           = max a (min B (a + int (j + k)))"
  by (auto simp: min_def max_def)

lemma allot_client_mandatory:
  assumes "my_num_workers_soft_limit m = 0"
  shows "\<exists>a' v'. allot_client m mw l app a v = Inr (a', v')
           \<and> mandatory_marked a a'
           \<and> assigned v' = assigned v + permits [a']
           \<and> assigned v' = max (assigned v) (min mw (assigned v + int (mandatory_clients [a])))"
  using assms
  by (auto simp: allot_client_def mandatory_marked_def permits_def visited_def
      mandatory_clients_def Let_def set_top_priority_def set_allotment_def
      client_update_allotment_def)

lemma clients_loop_mandatory:
  assumes soft: "my_num_workers_soft_limit m = 0"
  shows "\<exists>cs' v'. clients_loop m mw l app cs v = Inr (cs', v')
           \<and> list_all2 mandatory_marked cs cs'
           \<and> assigned v' = assigned v + permits cs'
           \<and> assigned v' = max (assigned v) (min mw (assigned v + int (mandatory_clients cs)))"
proof (induction cs arbitrary: v)
  case Nil
  show ?case by (simp add: permits_def visited_def mandatory_clients_def)
next
  case (Cons a rest)
  from allot_client_mandatory [OF soft, of mw l app a v]
  obtain a' v1 where s1: "allot_client m mw l app a v = Inr (a', v1)"
    and m1: "mandatory_marked a a'"
    and p1: "assigned v1 = assigned v + permits [a']"
    and g1: "assigned v1 = max (assigned v) (min mw (assigned v + int (mandatory_clients [a])))"
    by blast
  from Cons.IH [of v1]
  obtain rest' v2 where s2: "clients_loop m mw l app rest v1 = Inr (rest', v2)"
    and m2: "list_all2 mandatory_marked rest rest'"
    and p2: "assigned v2 = assigned v1 + permits rest'"
    and g2: "assigned v2 = max (assigned v1) (min mw (assigned v1 + int (mandatory_clients rest)))"
    by blast
  have p: "assigned v2 = assigned v + permits (a' # rest')"
    using p1 p2 permits_append [of "[a']" rest'] by simp
  have g: "assigned v2 =
             max (assigned v) (min mw (assigned v + int (mandatory_clients (a # rest))))"
    using g2 unfolding g1 saturate_twice
    using mandatory_clients_append [of "[a]" rest] by simp
  from s1 s2 m1 m2 p g show ?case by simp
qed


lemma level_step_mandatory:
  assumes soft: "my_num_workers_soft_limit m = 0"
  shows "\<exists>s'. level_step m mw l s = Inr s'
           \<and> list_all2 mandatory_marked (ls_arenas s l) (ls_arenas s' l)
           \<and> (\<forall>k. k \<noteq> l \<longrightarrow> ls_arenas s' k = ls_arenas s k)
           \<and> assigned (ls_vars s') = assigned (ls_vars s) + permits (ls_arenas s' l)
           \<and> assigned (ls_vars s') =
               max (assigned (ls_vars s))
                 (min mw (assigned (ls_vars s) + int (mandatory_clients (ls_arenas s l))))"
proof -
  from clients_loop_mandatory [OF soft,
      of mw l "min (my_priority_level_demand m l) (unassigned_workers s)"
         "ls_arenas s l" "ls_vars s"]
  obtain cs v where
    run: "clients_loop m mw l (min (my_priority_level_demand m l) (unassigned_workers s))
            (ls_arenas s l) (ls_vars s) = Inr (cs, v)"
    and mk: "list_all2 mandatory_marked (ls_arenas s l) cs"
    and p: "assigned v = assigned (ls_vars s) + permits cs"
    and g: "assigned v = max (assigned (ls_vars s))
                 (min mw (assigned (ls_vars s) + int (mandatory_clients (ls_arenas s l))))"
    by blast
  show ?thesis using run mk p g by (simp add: level_step_def Let_def)
qed

lemma levels_loop_mandatory:
  assumes soft: "my_num_workers_soft_limit m = 0"
    and fr: "\<forall>k. i \<le> k \<longrightarrow> ls_arenas s k = A k"
  shows "\<exists>s'. levels_loop m mw [i..<n] s = Inr s'
           \<and> (\<forall>k. i \<le> k \<and> k < n \<longrightarrow> list_all2 mandatory_marked (A k) (ls_arenas s' k))
           \<and> (\<forall>k. \<not> (i \<le> k \<and> k < n) \<longrightarrow> ls_arenas s' k = ls_arenas s k)
           \<and> assigned (ls_vars s') =
               assigned (ls_vars s) + permits (concat (map (ls_arenas s') [i..<n]))
           \<and> assigned (ls_vars s') =
               max (assigned (ls_vars s))
                 (min mw (assigned (ls_vars s)
                            + int (mandatory_clients (concat (map A [i..<n])))))"
  using fr
proof (induction "n - i" arbitrary: i s)
  case 0
  then show ?case by (auto simp: permits_def visited_def mandatory_clients_def)
next
  case (Suc d)
  then have lt: "i < n" by simp
  have Ai: "ls_arenas s i = A i" using Suc.prems by simp
  from level_step_mandatory [OF soft, of mw i s]
  obtain s1 where step: "level_step m mw i s = Inr s1"
    and mk1: "list_all2 mandatory_marked (ls_arenas s i) (ls_arenas s1 i)"
    and fr1: "\<forall>k. k \<noteq> i \<longrightarrow> ls_arenas s1 k = ls_arenas s k"
    and p1: "assigned (ls_vars s1) = assigned (ls_vars s) + permits (ls_arenas s1 i)"
    and g1: "assigned (ls_vars s1) =
               max (assigned (ls_vars s))
                 (min mw (assigned (ls_vars s) + int (mandatory_clients (ls_arenas s i))))"
    by blast
  have d: "d = n - Suc i" using Suc.hyps(2) by simp
  have frA: "\<forall>k. Suc i \<le> k \<longrightarrow> ls_arenas s1 k = A k"
    using fr1 Suc.prems by simp
  from Suc.hyps(1) [OF d frA]
  obtain s' where run: "levels_loop m mw [Suc i..<n] s1 = Inr s'"
    and mk: "\<forall>k. Suc i \<le> k \<and> k < n \<longrightarrow> list_all2 mandatory_marked (A k) (ls_arenas s' k)"
    and frame: "\<forall>k. \<not> (Suc i \<le> k \<and> k < n) \<longrightarrow> ls_arenas s' k = ls_arenas s1 k"
    and p: "assigned (ls_vars s') =
               assigned (ls_vars s1) + permits (concat (map (ls_arenas s') [Suc i..<n]))"
    and g: "assigned (ls_vars s') =
               max (assigned (ls_vars s1))
                 (min mw (assigned (ls_vars s1)
                            + int (mandatory_clients (concat (map A [Suc i..<n])))))"
    by blast
  have whole: "levels_loop m mw [i..<n] s = Inr s'"
    using lt step run by (simp add: upt_conv_Cons)
  have at_i: "ls_arenas s' i = ls_arenas s1 i" using frame by simp
  have marked: "\<forall>k. i \<le> k \<and> k < n \<longrightarrow> list_all2 mandatory_marked (A k) (ls_arenas s' k)"
  proof (intro allI impI)
    fix k assume k: "i \<le> k \<and> k < n"
    show "list_all2 mandatory_marked (A k) (ls_arenas s' k)"
    proof (cases "k = i")
      case True
      then show ?thesis using mk1 at_i Ai by simp
    next
      case False
      with k have "Suc i \<le> k \<and> k < n" by simp
      with mk show ?thesis by blast
    qed
  qed
  have framed: "\<forall>k. \<not> (i \<le> k \<and> k < n) \<longrightarrow> ls_arenas s' k = ls_arenas s k"
  proof (intro allI impI)
    fix k assume k: "\<not> (i \<le> k \<and> k < n)"
    with lt have "\<not> (Suc i \<le> k \<and> k < n)" "k \<noteq> i" by auto
    with frame fr1 show "ls_arenas s' k = ls_arenas s k" by simp
  qed
  have sum: "assigned (ls_vars s') =
               assigned (ls_vars s) + permits (concat (map (ls_arenas s') [i..<n]))"
    using p p1 lt at_i by (simp add: upt_conv_Cons)
  have sat: "assigned (ls_vars s') =
               max (assigned (ls_vars s))
                 (min mw (assigned (ls_vars s)
                            + int (mandatory_clients (concat (map A [i..<n])))))"
    using g lt unfolding g1 Ai saturate_twice by (simp add: upt_conv_Cons)
  from whole marked framed sum sat show ?case by blast
qed

text \<open>
  Claim C4, as amended. When the soft limit is zero the allotment engine returns, and it
  visits only the clients with non-zero demand: each of them gets allotment 0 or 1, and 1
  only if its \<open>global_concurrency_mode\<close> is set; the permits of the visited clients add up
  to the returned total, which is the budget \<open>min(workers_demand, max_workers)\<close> or the
  number of visited clients in mandatory mode, whichever is smaller (and 0 for a negative
  budget). So with a budget of 0 or 1 the visited clients hold at most one permit in total.
  A client without demand is skipped: it keeps the allotment it had.
\<close>

theorem update_allotment_mandatory:
  assumes soft: "my_num_workers_soft_limit m = 0"
  shows "\<exists>n arenas'.
           update_allotment m arenas workers_demand max_workers = Inr (n, arenas')
           \<and> (\<forall>l<num_priority_levels. list_all2 mandatory_marked (arenas l) (arenas' l))
           \<and> n = permits (all_clients arenas')
           \<and> n = max 0 (min (min workers_demand max_workers)
                             (int (mandatory_clients (all_clients arenas))))
           \<and> (min workers_demand max_workers \<le> 1 \<longrightarrow> permits (all_clients arenas') \<le> 1)"
proof -
  let ?B = "min workers_demand max_workers"
  let ?s = "\<lparr>ls_arenas = arenas, unassigned_workers = ?B,
             ls_vars = \<lparr>assigned = 0, carry = 0, max_priority_level = num_priority_levels\<rparr>\<rparr>"
  have fr: "\<forall>k. 0 \<le> k \<longrightarrow> ls_arenas ?s k = arenas k" by simp
  from levels_loop_mandatory [OF soft fr, of ?B num_priority_levels]
  obtain s' where run: "levels_loop m ?B [0..<num_priority_levels] ?s = Inr s'"
    and mk: "\<forall>k. 0 \<le> k \<and> k < num_priority_levels \<longrightarrow>
               list_all2 mandatory_marked (arenas k) (ls_arenas s' k)"
    and p: "assigned (ls_vars s') =
              assigned (ls_vars ?s) + permits (concat (map (ls_arenas s') [0..<num_priority_levels]))"
    and g: "assigned (ls_vars s') =
               max (assigned (ls_vars ?s))
                 (min ?B (assigned (ls_vars ?s)
                            + int (mandatory_clients (concat (map arenas [0..<num_priority_levels])))))"
    by blast
  have r: "update_allotment m arenas workers_demand max_workers
             = Inr (assigned (ls_vars s'), ls_arenas s')"
    using run by (simp add: update_allotment_def Let_def)
  have n1: "assigned (ls_vars s') = permits (all_clients (ls_arenas s'))"
    using p by (simp add: all_clients_def)
  have n2: "assigned (ls_vars s') =
              max 0 (min ?B (int (mandatory_clients (all_clients arenas))))"
    using g by (simp add: all_clients_def)
  have le: "?B \<le> 1 \<longrightarrow> permits (all_clients (ls_arenas s')) \<le> 1"
    using n1 n2 by auto
  from r mk n1 n2 le show ?thesis by auto
qed

theorem update_allotment_mandatory_witness:
  "my_num_workers_soft_limit market_S4 = 0
   \<and> (\<exists>arenas'. update_allotment market_S4 (my_arenas market_S4) 1 1 = Inr (1, arenas')
          \<and> map my_num_workers_allotted (arenas' 1) = [1]
          \<and> permits (all_clients arenas') = 1)"
proof -
  have h: "my_num_workers_soft_limit market_S4 = 0"
    by (simp add: market_S4_def new_market_def)
  have e: "case update_allotment market_S4 (my_arenas market_S4) 1 1 of
             Inl e \<Rightarrow> False
           | Inr (n, ar) \<Rightarrow> n = 1 \<and> map my_num_workers_allotted (ar 1) = [1]"
    by code_simp
  from update_allotment_mandatory [OF h, of "my_arenas market_S4" 1 1] e
  show ?thesis using h by (auto split: sum.splits)
qed

theorem update_allotment_mandatory_counterexample:
  "my_num_workers_soft_limit market_mandatory_idle = 0
   \<and> map m_global_concurrency_mode (my_arenas market_mandatory_idle 0) = [True]
   \<and> (case update_allotment market_mandatory_idle (my_arenas market_mandatory_idle) 2 1 of
         Inl e \<Rightarrow> False
       | Inr (n, ar) \<Rightarrow>
           n = 0 \<and> map my_num_workers_allotted (ar 0) = [0]
           \<and> map my_num_workers_allotted (ar 1) = [0])"
  by code_simp

subsection \<open>What the engine leaves alone\<close>

lemma allot_client_unallotted:
  assumes "allot_client m mw l app a v = Inr (a', v')"
  shows "unallotted a' = unallotted a"
  using assms
  by (auto simp: allot_client_def unallotted_def Let_def set_top_priority_def
      set_allotment_def client_update_allotment_def split: if_splits)

lemma clients_loop_unallotted:
  assumes "clients_loop m mw l app cs v = Inr (cs', v')"
  shows "map unallotted cs' = map unallotted cs"
  using assms
proof (induction cs arbitrary: v cs')
  case Nil
  then show ?case by simp
next
  case (Cons a rest)
  from Cons.prems obtain a' v1 rest' where
    s1: "allot_client m mw l app a v = Inr (a', v1)"
    and s2: "clients_loop m mw l app rest v1 = Inr (rest', v')"
    and cs': "cs' = a' # rest'"
    by (auto split: sum.splits)
  from allot_client_unallotted [OF s1] Cons.IH [OF s2] cs' show ?case by simp
qed

lemma level_step_unallotted:
  assumes "level_step m mw l s = Inr s'"
  shows "map unallotted (ls_arenas s' k) = map unallotted (ls_arenas s k)"
  using assms clients_loop_unallotted
  by (auto simp: level_step_def Let_def split: sum.splits)

lemma levels_loop_unallotted:
  assumes "levels_loop m mw idxs s = Inr s'"
  shows "map unallotted (ls_arenas s' k) = map unallotted (ls_arenas s k)"
  using assms
proof (induction idxs arbitrary: s)
  case Nil
  then show ?case by simp
next
  case (Cons i idxs)
  from Cons.prems obtain s1 where
    step: "level_step m mw i s = Inr s1" and rest: "levels_loop m mw idxs s1 = Inr s'"
    by (auto split: sum.splits)
  from Cons.IH [OF rest] level_step_unallotted [OF step] show ?case by simp
qed

lemma update_allotment_unallotted:
  assumes "update_allotment m arenas wd mw = Inr (n, arenas')"
  shows "map unallotted (arenas' k) = map unallotted (arenas k)"
proof -
  from assms obtain s' where
    run: "levels_loop m (min wd mw) [0..<num_priority_levels]
            \<lparr>ls_arenas = arenas, unassigned_workers = min wd mw,
             ls_vars = \<lparr>assigned = 0, carry = 0, max_priority_level = num_priority_levels\<rparr>\<rparr>
          = Inr s'"
    and ar: "arenas' = ls_arenas s'"
    by (auto simp: update_allotment_def Let_def split: sum.splits)
  from levels_loop_unallotted [OF run, of k] show ?thesis by (simp add: ar)
qed

lemma map_mode_unallotted:
  "map m_global_concurrency_mode xs = map m_global_concurrency_mode (map unallotted xs)"
  by (simp add: unallotted_def)

subsection \<open>Enabling mandatory concurrency for the clients with enqueued tasks\<close>

lemma for_each_client_enable:
  "for_each_client enable_if_enqueued m cs =
     (m\<lparr>my_mandatory_num_requested :=
          my_mandatory_num_requested m + int (length (filter has_enqueued_tasks cs))\<rparr>,
      map enabled_if_enqueued cs)"
  by (induction cs arbitrary: m)
     (simp_all add: enable_if_enqueued_def enable_mandatory_concurrency_impl_def
        enabled_if_enqueued_def)

lemma for_each_level_enable:
  "for_each_level enable_if_enqueued m [i..<n] =
     m\<lparr>my_mandatory_num_requested :=
         my_mandatory_num_requested m
           + int (length (filter has_enqueued_tasks (concat (map (my_arenas m) [i..<n])))),
       my_arenas := (\<lambda>l. if i \<le> l \<and> l < n then map enabled_if_enqueued (my_arenas m l)
                          else my_arenas m l)\<rparr>"
proof (induction "n - i" arbitrary: i m)
  case 0
  then have "(\<lambda>l. if i \<le> l \<and> l < n then map enabled_if_enqueued (my_arenas m l)
                   else my_arenas m l) = my_arenas m"
    by (auto simp: fun_eq_iff)
  with 0 show ?case by simp
next
  case (Suc d)
  then have lt: "i < n" and d: "d = n - Suc i" by simp_all
  let ?m1 = "m\<lparr>my_mandatory_num_requested :=
                 my_mandatory_num_requested m
                   + int (length (filter has_enqueued_tasks (my_arenas m i))),
               my_arenas := (my_arenas m)(i := map enabled_if_enqueued (my_arenas m i))\<rparr>"
  have step: "for_each_level enable_if_enqueued m [i..<n]
                = for_each_level enable_if_enqueued ?m1 [Suc i..<n]"
    using lt by (simp add: upt_conv_Cons for_each_client_enable)
  have later: "map (my_arenas ?m1) [Suc i..<n] = map (my_arenas m) [Suc i..<n]"
    by simp
  have ar: "(\<lambda>l. if Suc i \<le> l \<and> l < n then map enabled_if_enqueued (my_arenas ?m1 l)
                  else my_arenas ?m1 l)
            = (\<lambda>l. if i \<le> l \<and> l < n then map enabled_if_enqueued (my_arenas m l)
                  else my_arenas m l)"
    using lt by (auto simp: fun_eq_iff)
  show ?case
    unfolding step Suc.hyps(1) [OF d] later ar
    using lt by (simp add: upt_conv_Cons)
qed


lemma update_allotment_returns_mandatory:
  assumes "my_num_workers_soft_limit m = 0"
  shows "\<exists>n arenas'. update_allotment m arenas wd mw = Inr (n, arenas')"
proof -
  have "\<forall>k. 0 \<le> k \<longrightarrow>
          ls_arenas \<lparr>ls_arenas = arenas, unassigned_workers = min wd mw,
             ls_vars = \<lparr>assigned = 0, carry = 0,
                        max_priority_level = num_priority_levels\<rparr>\<rparr> k = arenas k"
    by simp
  from levels_loop_mandatory [OF assms this, of "min wd mw" num_priority_levels]
  show ?thesis by (auto simp: update_allotment_def Let_def)
qed

lemma inc_dec_unsigned:
  assumes "r \<noteq> 0" "r < 2 ^ 32"
  shows "dec_unsigned (inc_unsigned r) = r" and "dec_unsigned (inc_unsigned r) \<noteq> 0"
proof -
  show "dec_unsigned (inc_unsigned r) = r"
  proof (cases "r + 1 < 2 ^ 32")
    case True
    then show ?thesis by (simp add: inc_unsigned_def dec_unsigned_def)
  next
    case False
    with assms have "r + 1 = 2 ^ 32" by simp
    then have "inc_unsigned r = 0" "r = 2 ^ 32 - 1" by (simp_all add: inc_unsigned_def)
    then show ?thesis by (simp add: dec_unsigned_def)
  qed
  with assms show "dec_unsigned (inc_unsigned r) \<noteq> 0" by simp
qed

lemma release_internal:
  assumes "theMarket q = Some mp" and "dec_unsigned (my_ref_count (heap q mp)) \<noteq> 0"
  shows "release q mp False False =
           Inr (False, q\<lparr>heap := (heap q)(mp := (heap q mp)
                  \<lparr>my_ref_count := dec_unsigned (my_ref_count (heap q mp))\<rparr>)\<rparr>)"
  using assms by (simp add: release_def Let_def)

lemma set_active_num_workers_unfold:
  assumes tm: "theMarket p = Some mp"
    and soft: "my_num_workers_soft_limit (heap p mp) \<noteq> 0"
    and m4: "m4 = for_each_level enable_if_enqueued
                    ((heap p mp)\<lparr>my_ref_count := inc_unsigned (my_ref_count (heap p mp)),
                                 my_num_workers_soft_limit := 0,
                                 my_workers_soft_limit_to_report := 0\<rparr>)
                    [0..<num_priority_levels]"
    and uwr: "update_workers_request m4 = Inr (delta, m5)"
    and m6: "m6 = (if delta \<noteq> 0
                   then m5\<lparr>my_thread_dispatcher :=
                          adjust_job_count_estimate (my_thread_dispatcher m5) delta\<rparr>
                   else m5)"
  shows "set_active_num_workers p 0 =
           (case release (p\<lparr>heap := (heap p)(mp := m6)\<rparr>) mp False False of
              Inl e \<Rightarrow> Inl e
            | Inr (r, p') \<Rightarrow> Inr p')"
  using tm soft uwr unfolding m4 m6
  by (simp add: set_active_num_workers_def Let_def del: fun_upd_apply)

text \<open>
  Claim C10. When \<open>set_active_num_workers\<close> changes a soft limit that is not zero to zero,
  on a live market, it returns with the singleton in place and the soft limit zero; every
  registered client whose arena has enqueued tasks is then in mandatory mode, the others
  are as before, and \<open>mandatory_num_requested\<close> has grown by the number of clients with
  enqueued tasks. This is done after the new limit is stored and before the workers
  request is recomputed: the request is 1 as soon as one client has enqueued tasks.
\<close>

theorem set_active_num_workers_zero:
  assumes tm: "theMarket p = Some mp"
    and soft: "my_num_workers_soft_limit (heap p mp) \<noteq> 0"
    and ref: "my_ref_count (heap p mp) \<noteq> 0" "my_ref_count (heap p mp) < 2 ^ 32"
  shows "\<exists>p'. set_active_num_workers p 0 = Inr p'
           \<and> theMarket p' = Some mp
           \<and> my_num_workers_soft_limit (heap p' mp) = 0
           \<and> (\<forall>l<num_priority_levels.
                 map m_global_concurrency_mode (my_arenas (heap p' mp) l) =
                 map (\<lambda>c. has_enqueued_tasks c \<or> m_global_concurrency_mode c)
                     (my_arenas (heap p mp) l))
           \<and> my_mandatory_num_requested (heap p' mp) =
               my_mandatory_num_requested (heap p mp)
                 + int (length (filter has_enqueued_tasks (all_clients (my_arenas (heap p mp)))))
           \<and> my_num_workers_requested (heap p' mp) =
               (if 0 < my_mandatory_num_requested (heap p' mp) then 1
                else min (my_total_demand (heap p mp)) 0)"
proof -
  let ?m = "heap p mp"
  let ?k = "int (length (filter has_enqueued_tasks (all_clients (my_arenas ?m))))"
  define m3 where "m3 = ?m\<lparr>my_ref_count := inc_unsigned (my_ref_count ?m),
                my_num_workers_soft_limit := 0, my_workers_soft_limit_to_report := 0\<rparr>"
  define m4 where "m4 = for_each_level enable_if_enqueued m3 [0..<num_priority_levels]"
  have m4_eq: "m4 = m3\<lparr>my_mandatory_num_requested := my_mandatory_num_requested m3
                        + int (length (filter has_enqueued_tasks
                                 (concat (map (my_arenas m3) [0..<num_priority_levels])))),
                      my_arenas := (\<lambda>l. if 0 \<le> l \<and> l < num_priority_levels
                                         then map enabled_if_enqueued (my_arenas m3 l)
                                         else my_arenas m3 l)\<rparr>"
    unfolding m4_def by (rule for_each_level_enable)
  have f4: "my_num_workers_soft_limit m4 = 0"
    "my_mandatory_num_requested m4 = my_mandatory_num_requested ?m + ?k"
    "my_total_demand m4 = my_total_demand ?m"
    "my_ref_count m4 = inc_unsigned (my_ref_count ?m)"
    "\<And>l. l < num_priority_levels \<Longrightarrow>
        my_arenas m4 l = map enabled_if_enqueued (my_arenas ?m l)"
    unfolding m4_eq by (simp_all add: m3_def all_clients_def)
  from update_allotment_returns_mandatory [OF f4(1)]
  obtain n ar' where eng:
    "update_allotment m4 (my_arenas m4) (my_total_demand m4) (spec_workers_request m4)
       = Inr (n, ar')"
    by blast
  define m5 where "m5 = m4\<lparr>my_num_workers_requested := spec_workers_request m4,
                            my_arenas := ar'\<rparr>"
  define delta where "delta = spec_workers_request m4 - my_num_workers_requested m4"
  have uwr: "update_workers_request m4 = Inr (delta, m5)"
    using eng by (simp add: update_workers_request_spec m5_def delta_def)
  define m6 where "m6 = (if delta \<noteq> 0
                   then m5\<lparr>my_thread_dispatcher :=
                          adjust_job_count_estimate (my_thread_dispatcher m5) delta\<rparr>
                   else m5)"
  have f6: "my_num_workers_soft_limit m6 = 0"
    "my_mandatory_num_requested m6 = my_mandatory_num_requested ?m + ?k"
    "my_num_workers_requested m6 = spec_workers_request m4"
    "my_ref_count m6 = inc_unsigned (my_ref_count ?m)"
    "my_arenas m6 = ar'"
    using f4 by (simp_all add: m6_def m5_def)
  have r: "spec_workers_request m4 =
             (if 0 < my_mandatory_num_requested ?m + ?k then 1 else min (my_total_demand ?m) 0)"
    using f4 by (simp add: spec_workers_request_def)
  define p6 where "p6 = p\<lparr>heap := (heap p)(mp := m6)\<rparr>"
  have h6: "heap p6 mp = m6" "theMarket p6 = Some mp"
    using tm by (simp_all add: p6_def)
  define p7 where "p7 = p6\<lparr>heap := (heap p6)(mp := (heap p6 mp)
                  \<lparr>my_ref_count := dec_unsigned (my_ref_count (heap p6 mp))\<rparr>)\<rparr>"
  have live: "dec_unsigned (my_ref_count (heap p6 mp)) \<noteq> 0"
    using inc_dec_unsigned(2) [OF ref] by (simp add: h6 f6)
  have rel: "release p6 mp False False = Inr (False, p7)"
    unfolding p7_def by (rule release_internal [OF h6(2) live])
  have run: "set_active_num_workers p 0 = Inr p7"
    using set_active_num_workers_unfold [OF tm soft _ uwr m6_def] rel
    by (simp add: m4_def m3_def p6_def)
  have f7: "theMarket p7 = Some mp"
    "my_num_workers_soft_limit (heap p7 mp) = 0"
    "my_mandatory_num_requested (heap p7 mp) = my_mandatory_num_requested ?m + ?k"
    "my_num_workers_requested (heap p7 mp) = spec_workers_request m4"
    "my_arenas (heap p7 mp) = ar'"
    using h6 f6 by (simp_all add: p7_def)
  have modes: "\<forall>l<num_priority_levels.
                 map m_global_concurrency_mode (ar' l) =
                 map (\<lambda>c. has_enqueued_tasks c \<or> m_global_concurrency_mode c) (my_arenas ?m l)"
  proof (intro allI impI)
    fix l assume l: "l < num_priority_levels"
    have "map m_global_concurrency_mode (ar' l)
            = map m_global_concurrency_mode (map unallotted (ar' l))"
      by (rule map_mode_unallotted)
    also have "\<dots> = map m_global_concurrency_mode (map unallotted (my_arenas m4 l))"
      using update_allotment_unallotted [OF eng, of l] by simp
    also have "\<dots> = map m_global_concurrency_mode (my_arenas m4 l)"
      by (rule map_mode_unallotted [symmetric])
    also have "\<dots> = map (\<lambda>c. has_enqueued_tasks c \<or> m_global_concurrency_mode c)
                        (my_arenas ?m l)"
      using l by (simp add: f4 enabled_if_enqueued_def)
    finally show "map m_global_concurrency_mode (ar' l) =
                 map (\<lambda>c. has_enqueued_tasks c \<or> m_global_concurrency_mode c) (my_arenas ?m l)" .
  qed
  show ?thesis
    using run modes r by (intro exI [of _ p7]) (simp add: f7)
qed

theorem set_active_num_workers_zero_witness:
  "theMarket (process_of market_enqueued) = Some 0
   \<and> my_num_workers_soft_limit (heap (process_of market_enqueued) 0) \<noteq> 0
   \<and> my_ref_count (heap (process_of market_enqueued) 0) \<noteq> 0
   \<and> my_ref_count (heap (process_of market_enqueued) 0) < 2 ^ 32
   \<and> (\<exists>p'. set_active_num_workers (process_of market_enqueued) 0 = Inr p'
         \<and> map m_global_concurrency_mode (my_arenas (heap p' 0) 1) = [True, False]
         \<and> my_mandatory_num_requested (heap p' 0) = 1
         \<and> my_num_workers_requested (heap p' 0) = 1)"
proof -
  have h: "theMarket (process_of market_enqueued) = Some 0"
    "my_num_workers_soft_limit (heap (process_of market_enqueued) 0) \<noteq> 0"
    "my_ref_count (heap (process_of market_enqueued) 0) \<noteq> 0"
    "my_ref_count (heap (process_of market_enqueued) 0) < 2 ^ 32"
    by (simp_all add: process_of_def market_enqueued_def new_market_def)
  have a: "my_arenas (heap (process_of market_enqueued) 0) 1 =
             [(new_client 1 1 1)\<lparr>has_enqueued_tasks := True, my_num_workers_allotted := 1\<rparr>,
              (new_client 2 1 2)\<lparr>my_num_workers_allotted := 2\<rparr>]"
    and m0: "my_mandatory_num_requested (heap (process_of market_enqueued) 0) = 0"
    by (simp_all add: process_of_def market_enqueued_def new_market_def)
  have k: "length (filter has_enqueued_tasks
             (all_clients (my_arenas (heap (process_of market_enqueued) 0)))) = 1"
    by (simp add: all_clients_def process_of_def market_enqueued_def new_market_def
        new_client_def num_priority_levels_def upt_rec)
  have one: "(1::nat) < num_priority_levels" by (simp add: num_priority_levels_def)
  from set_active_num_workers_zero [OF h]
  obtain p' where r: "set_active_num_workers (process_of market_enqueued) 0 = Inr p'"
    and modes: "\<forall>l<num_priority_levels.
                 map m_global_concurrency_mode (my_arenas (heap p' 0) l) =
                 map (\<lambda>c. has_enqueued_tasks c \<or> m_global_concurrency_mode c)
                     (my_arenas (heap (process_of market_enqueued) 0) l)"
    and mand: "my_mandatory_num_requested (heap p' 0) =
               my_mandatory_num_requested (heap (process_of market_enqueued) 0)
                 + int (length (filter has_enqueued_tasks
                     (all_clients (my_arenas (heap (process_of market_enqueued) 0)))))"
    and req: "my_num_workers_requested (heap p' 0) =
               (if 0 < my_mandatory_num_requested (heap p' 0) then 1
                else min (my_total_demand (heap (process_of market_enqueued) 0)) 0)"
    by blast
  from modes one
  have "map m_global_concurrency_mode (my_arenas (heap p' 0) 1) =
          map (\<lambda>c. has_enqueued_tasks c \<or> m_global_concurrency_mode c)
              (my_arenas (heap (process_of market_enqueued) 0) 1)"
    by blast
  then have g: "map m_global_concurrency_mode (my_arenas (heap p' 0) 1) = [True, False]"
    unfolding a by (simp add: new_client_def)
  from mand have m1: "my_mandatory_num_requested (heap p' 0) = 1" by (simp add: k m0)
  with req have r1: "my_num_workers_requested (heap p' 0) = 1" by simp
  from h r g m1 r1 show ?thesis by simp
qed

end
